theory Spec2Isabelle
  imports Complex_Main "HOL-Library.Sublist"
begin

section \<open>Poly(A) emission re-estimation: scripts/reestimate_polya_emissions.py\<close>

text \<open>
  A shallow embedding of the script. Python exceptions are values of \<open>py_error\<close>, a
  function that can raise returns \<open>py_error + 'a\<close> (\<open>Inl\<close> is the raised exception).
  A Python \<open>dict\<close> is an association list in iteration order; the dictionaries the
  script builds have pairwise distinct keys. Python integers are \<open>int\<close>. A file is
  the list of its lines, each split into fields at the tabs, as \<open>csv.reader\<close> with the
  tab delimiter and \<open>QUOTE_NONE\<close> hands them to \<open>csv.DictReader\<close>.
\<close>

subsection \<open>Exceptions\<close>

datatype py_error = ValueError | TypeError | OverflowError | KeyError

definition bind :: "py_error + 'a \<Rightarrow> ('a \<Rightarrow> py_error + 'b) \<Rightarrow> py_error + 'b" where
  "bind m f = (case m of Inl e \<Rightarrow> Inl e | Inr x \<Rightarrow> f x)"

subsection \<open>Segmentations and region labels\<close>

text \<open>
  The value stored per read by \<open>make_segmentation_dict\<close>: the dictionary with the keys
  \<open>'L_start'\<close>, \<open>'A_start'\<close>, \<open>'P_start'\<close>, \<open>'P_end'\<close>.
\<close>

record segment =
  L_start :: int
  A_start :: int
  P_start :: int
  P_end :: int

type_synonym segmentations = "(string \<times> segment) list"

text \<open>The integer labels of \<open>region_search\<close>'s docstring; 4 (CLIFF) is never returned.\<close>

abbreviation START :: int where "START \<equiv> 0"
abbreviation LEADER :: int where "LEADER \<equiv> 1"
abbreviation ADAPTER :: int where "ADAPTER \<equiv> 2"
abbreviation POLYA :: int where "POLYA \<equiv> 3"
abbreviation TRANSCRIPT :: int where "TRANSCRIPT \<equiv> 5"
abbreviation UNKNOWN :: int where "UNKNOWN \<equiv> 6"

subsection \<open>\<open>region_search\<close>\<close>

text \<open>
  The loop of lines 140-143: \<open>read_key\<close> starts as \<open>None\<close> and is overwritten at every
  key whose slice \<open>long_read_id[0:len(read_id)]\<close> equals \<open>read_id\<close>; there is no
  \<open>break\<close>.
\<close>

fun find_read_key :: "string \<Rightarrow> string list \<Rightarrow> string option \<Rightarrow> string option" where
  "find_read_key read_id [] read_key = read_key"
| "find_read_key read_id (long_read_id # keys) read_key =
     find_read_key read_id keys
       (if take (length read_id) long_read_id = read_id then Some long_read_id else read_key)"

text \<open>
  Lines 145-164. \<open>segmentations[read_key]\<close> raises \<open>KeyError\<close> on a missing key; the five
  comparisons are separate \<open>if\<close> statements, each returning, followed by \<open>return 6\<close>.
\<close>

definition region_search :: "string \<Rightarrow> int \<Rightarrow> segmentations \<Rightarrow> py_error + int" where
  "region_search read_id sample_ix segmentations =
     (case find_read_key read_id (map fst segmentations) None of
        None \<Rightarrow> Inr 6
      | Some read_key \<Rightarrow>
          (case map_of segmentations read_key of
             None \<Rightarrow> Inl KeyError
           | Some s \<Rightarrow>
               (let l_start = L_start s; a_start = A_start s;
                    p_start = P_start s; p_end = P_end s
                in if sample_ix < l_start then Inr 0
                   else if sample_ix < a_start then Inr 1
                   else if sample_ix < p_start then Inr 2
                   else if sample_ix \<le> p_end then Inr 3
                   else if sample_ix > p_end then Inr 5
                   else Inr 6)))"

subsection \<open>\<open>float()\<close> and \<open>int()\<close> on strings\<close>

text \<open>
  A Python float is a finite value, an infinity or NaN. Strings are ASCII. A literal
  whose magnitude is at least \<open>2 ^ 1024 - 2 ^ 970\<close>, half a unit in the last place above the
  largest binary64 value, rounds to an infinity. Below that bound the float is modelled
  by the real number the literal denotes: the rounding of the significand to 53 bits
  and the sign of zero are not modelled, so that a stored value can differ from the
  code's in its last place; whether a conversion raises does not depend on it.
\<close>

datatype pyfloat = Finite real | PosInf | NegInf | NaN

definition binary64 :: "real \<Rightarrow> pyfloat" where
  "binary64 v =
     (if 2 ^ 1024 - 2 ^ 970 \<le> \<bar>v\<bar> then (if v < 0 then NegInf else PosInf) else Finite v)"

text \<open>
  The characters that \<open>float\<close> and \<open>int\<close> skip around the literal of an ASCII string:
  space, tab, line feed, vertical tab, form feed, carriage return.
\<close>

definition is_space :: "char \<Rightarrow> bool" where
  "is_space c = (c \<in> set [CHR '' '', CHR 0x09, CHR 0x0A, CHR 0x0B, CHR 0x0C, CHR 0x0D])"

definition py_strip :: "string \<Rightarrow> string" where
  "py_strip s = rev (dropWhile is_space (rev (dropWhile is_space s)))"

definition is_digit :: "char \<Rightarrow> bool" where
  "is_digit c = (c \<in> set ''0123456789'')"

definition digit_val :: "char \<Rightarrow> nat" where
  "digit_val c = of_char c - 48"

definition lower :: "char \<Rightarrow> char" where
  "lower c =
     (case map_of (zip ''ABCDEFGHIJKLMNOPQRSTUVWXYZ'' ''abcdefghijklmnopqrstuvwxyz'') c of
        None \<Rightarrow> c
      | Some l \<Rightarrow> l)"

text \<open>
  \<open>digitpart ::= digit (["_"] digit)*\<close>: a single underscore is allowed between two
  digits and does not count.
\<close>

fun digits_val :: "string \<Rightarrow> nat \<Rightarrow> nat option" where
  "digits_val [] acc = Some acc"
| "digits_val (c # cs) acc =
     (if is_digit c then digits_val cs (10 * acc + digit_val c)
      else if c = CHR ''_'' \<and> cs \<noteq> [] \<and> is_digit (hd cs) then digits_val cs acc
      else None)"

definition digitpart :: "string \<Rightarrow> nat option" where
  "digitpart s = (if s = [] \<or> \<not> is_digit (hd s) then None else digits_val s 0)"

definition split_sign :: "string \<Rightarrow> int \<times> string" where
  "split_sign s =
     (case s of
        [] \<Rightarrow> (1, [])
      | c # r \<Rightarrow> if c = CHR ''-'' then (- 1, r) else if c = CHR ''+'' then (1, r) else (1, s))"

text \<open>\<open>number ::= [digitpart] "." digitpart | digitpart ["."]\<close>\<close>

definition number :: "string \<Rightarrow> real option" where
  "number m =
     (let ip = takeWhile (\<lambda>c. c \<noteq> CHR ''.'') m;
          rest = dropWhile (\<lambda>c. c \<noteq> CHR ''.'') m
      in if rest = [] then map_option real (digitpart ip)
         else let fp = tl rest
              in if ip = [] \<and> fp = [] then None
                 else (case (if ip = [] then Some 0 else digitpart ip,
                             if fp = [] then Some 0 else digitpart fp) of
                         (Some i, Some f) \<Rightarrow>
                           Some (real i + real f / 10 ^ length (filter is_digit fp))
                       | _ \<Rightarrow> None))"

text \<open>\<open>floatnumber ::= number [("e" | "E") ["+" | "-"] digitpart]\<close>\<close>

definition floatnumber :: "string \<Rightarrow> real option" where
  "floatnumber u =
     (let m = takeWhile (\<lambda>c. c \<noteq> CHR ''e'' \<and> c \<noteq> CHR ''E'') u;
          e = dropWhile (\<lambda>c. c \<noteq> CHR ''e'' \<and> c \<noteq> CHR ''E'') u
      in case number m of
           None \<Rightarrow> None
         | Some v \<Rightarrow>
             if e = [] then Some v
             else (let (sg, d) = split_sign (tl e)
                   in case digitpart d of
                        None \<Rightarrow> None
                      | Some n \<Rightarrow> Some (if sg < 0 then v / 10 ^ n else v * 10 ^ n)))"

text \<open>
  \<open>float(s)\<close> for a string: surrounding whitespace is dropped, then an optional sign and
  either \<open>inf\<close>, \<open>infinity\<close> or \<open>nan\<close> in any case, or a \<open>floatnumber\<close>.
  \<open>None\<close> is the \<open>ValueError\<close> "could not convert string to float".
\<close>

definition py_float :: "string \<Rightarrow> pyfloat option" where
  "py_float s =
     (let (sg, u) = split_sign (py_strip s); l = map lower u
      in if l = ''inf'' \<or> l = ''infinity'' then Some (if sg < 0 then NegInf else PosInf)
         else if l = ''nan'' then Some NaN
         else map_option (\<lambda>v. binary64 (real_of_int sg * v)) (floatnumber u))"

text \<open>
  \<open>int(s)\<close> for a string, base 10: whitespace, an optional sign, a \<open>digitpart\<close>.
  \<open>None\<close> is the \<open>ValueError\<close> "invalid literal for int()". (The limit on the number
  of digits that recent interpreters impose is not modelled.)
\<close>

definition py_int :: "string \<Rightarrow> int option" where
  "py_int s =
     (let (sg, u) = split_sign (py_strip s)
      in map_option (\<lambda>n. sg * int n) (digitpart u))"

text \<open>\<open>int(x)\<close> for a float truncates towards zero; infinities and NaN raise.\<close>

definition int_of_float :: "pyfloat \<Rightarrow> py_error + int" where
  "int_of_float x =
     (case x of
        Finite r \<Rightarrow> Inr (if 0 \<le> r then \<lfloor>r\<rfloor> else \<lceil>r\<rceil>)
      | PosInf \<Rightarrow> Inl OverflowError
      | NegInf \<Rightarrow> Inl OverflowError
      | NaN \<Rightarrow> Inl ValueError)"

text \<open>
  The argument of \<open>float\<close> and \<open>int\<close> in the script is a row value: a string, or \<open>None\<close>
  where the line has fewer fields than the header (then the call raises \<open>TypeError\<close>).
\<close>

definition float_obj :: "string option \<Rightarrow> py_error + pyfloat" where
  "float_obj v =
     (case v of
        None \<Rightarrow> Inl TypeError
      | Some s \<Rightarrow> (case py_float s of None \<Rightarrow> Inl ValueError | Some x \<Rightarrow> Inr x))"

definition int_obj :: "string option \<Rightarrow> py_error + int" where
  "int_obj v =
     (case v of
        None \<Rightarrow> Inl TypeError
      | Some s \<Rightarrow> (case py_int s of None \<Rightarrow> Inl ValueError | Some n \<Rightarrow> Inr n))"

subsection \<open>\<open>csv.DictReader\<close> with explicit field names\<close>

type_synonym row = "(string \<times> string option) list"

text \<open>
  One line as a dictionary: the field names paired with the fields in order, \<open>None\<close>
  (\<open>restval\<close>) for the names a short line leaves without a field. Fields beyond the
  names go under the key \<open>None\<close>, which the script never reads.
\<close>

fun DictReader_row :: "string list \<Rightarrow> string list \<Rightarrow> row" where
  "DictReader_row [] fs = []"
| "DictReader_row (h # hs) [] = (h, None) # DictReader_row hs []"
| "DictReader_row (h # hs) (f # fs) = (h, Some f) # DictReader_row hs fs"

text \<open>Lines without any field (blank lines) yield no row.\<close>

definition DictReader :: "string list \<Rightarrow> string list list \<Rightarrow> row list" where
  "DictReader fieldnames f = map (DictReader_row fieldnames) (filter (\<lambda>fs. fs \<noteq> []) f)"

definition getitem :: "row \<Rightarrow> string \<Rightarrow> py_error + string option" where
  "getitem r k = (case map_of r k of None \<Rightarrow> Inl KeyError | Some v \<Rightarrow> Inr v)"

text \<open>A \<open>for row in rdr\<close> loop whose body updates the accumulated state or raises.\<close>

fun for_rows :: "('s \<Rightarrow> row \<Rightarrow> py_error + 's) \<Rightarrow> row list \<Rightarrow> 's \<Rightarrow> py_error + 's" where
  "for_rows body [] s = Inr s"
| "for_rows body (r # rs) s =
     (case body s r of Inl e \<Rightarrow> Inl e | Inr s' \<Rightarrow> for_rows body rs s')"

definition samples_headers :: "string list" where
  "samples_headers = [''tag'', ''read_id'', ''chr'', ''idx'', ''sample'', ''scaled_sample'',
                      ''s_llh'', ''l_llh'', ''a_llh'', ''p_llh'', ''c_llh'', ''t_llh'', ''region'']"

definition segmentation_headers :: "string list" where
  "segmentation_headers = [''tag'', ''read_id'', ''pos'', ''L_start'', ''A_start'', ''P_start'',
                           ''P_end'', ''rate'', ''plen'', ''alen'']"

subsection \<open>\<open>old_tsv_to_numpy\<close>\<close>

record old_data =
  S_loglkhd :: "pyfloat list"
  L_loglkhd :: "pyfloat list"
  A_loglkhd :: "pyfloat list"
  P_loglkhd :: "pyfloat list"
  T_loglkhd :: "pyfloat list"

text \<open>The loop body, lines 76-94: five \<open>float\<close> calls in this order, then five appends.\<close>

definition old_row :: "old_data \<Rightarrow> row \<Rightarrow> py_error + old_data" where
  "old_row acc row =
     bind (bind (getitem row ''s_llh'') float_obj) (\<lambda>s_llh.
     bind (bind (getitem row ''l_llh'') float_obj) (\<lambda>l_llh.
     bind (bind (getitem row ''a_llh'') float_obj) (\<lambda>a_llh.
     bind (bind (getitem row ''p_llh'') float_obj) (\<lambda>p_llh.
     bind (bind (getitem row ''t_llh'') float_obj) (\<lambda>t_llh.
     bind (getitem row ''region'') (\<lambda>region.
       Inr \<lparr>S_loglkhd = (if region = Some ''START'' then S_loglkhd acc @ [s_llh]
                          else S_loglkhd acc),
            L_loglkhd = (if region = Some ''LEADER'' then L_loglkhd acc @ [l_llh]
                          else L_loglkhd acc),
            A_loglkhd = (if region = Some ''ADAPTER'' then A_loglkhd acc @ [a_llh]
                          else A_loglkhd acc),
            P_loglkhd = (if region = Some ''POLYA'' then P_loglkhd acc @ [p_llh]
                          else P_loglkhd acc),
            T_loglkhd = (if region = Some ''TRANSCRIPT'' then T_loglkhd acc @ [t_llh]
                          else T_loglkhd acc)\<rparr>))))))"

definition old_tsv_to_numpy :: "string list list \<Rightarrow> py_error + old_data" where
  "old_tsv_to_numpy f =
     for_rows old_row (DictReader samples_headers f)
       \<lparr>S_loglkhd = [], L_loglkhd = [], A_loglkhd = [], P_loglkhd = [], T_loglkhd = []\<rparr>"

subsection \<open>\<open>make_segmentation_dict\<close>\<close>

text \<open>
  The loop body, lines 120-124. The membership test comes first; only when the read
  identifier is new are the four boundaries converted, in the order of the dictionary
  display, and the entry appended. A line without a \<open>read_id\<close> field has no \<open>L_start\<close>
  field either, so that \<open>float(row['L_start'])\<close> raises \<open>TypeError\<close> before \<open>None\<close>
  could become a key.
\<close>

definition segmentation_row :: "segmentations \<Rightarrow> row \<Rightarrow> py_error + segmentations" where
  "segmentation_row segments row =
     bind (getitem row ''read_id'') (\<lambda>read_id.
       case read_id of
         None \<Rightarrow> Inl TypeError
       | Some k \<Rightarrow>
           if k \<notin> set (map fst segments) then
             bind (bind (bind (getitem row ''L_start'') float_obj) int_of_float) (\<lambda>l.
             bind (bind (bind (getitem row ''A_start'') float_obj) int_of_float) (\<lambda>a.
             bind (bind (bind (getitem row ''P_start'') float_obj) int_of_float) (\<lambda>p.
             bind (bind (bind (getitem row ''P_end'') float_obj) int_of_float) (\<lambda>pe.
               Inr (segments @ [(k, \<lparr>L_start = l, A_start = a, P_start = p, P_end = pe\<rparr>)])))))
           else Inr segments)"

definition make_segmentation_dict :: "string list list \<Rightarrow> py_error + segmentations" where
  "make_segmentation_dict f = for_rows segmentation_row (DictReader segmentation_headers f) []"

subsection \<open>\<open>new_tsv_to_numpy\<close>\<close>

record new_data =
  S_samples :: "pyfloat list"
  L_samples :: "pyfloat list"
  A_samples :: "pyfloat list"
  P_samples :: "pyfloat list"
  T_samples :: "pyfloat list"

text \<open>
  \<open>region_search\<close> applied to a row value. For \<open>None\<close> the call \<open>len(read_id)\<close> in the
  first iteration of the loop raises \<open>TypeError\<close>; with no key to iterate over the
  function returns 6.
\<close>

definition region_search_obj :: "string option \<Rightarrow> int \<Rightarrow> segmentations \<Rightarrow> py_error + int" where
  "region_search_obj read i segmentations =
     (case read of
        Some r \<Rightarrow> region_search r i segmentations
      | None \<Rightarrow> if segmentations = [] then Inr 6 else Inl TypeError)"

text \<open>The loop body, lines 191-205: separate \<open>if\<close> statements on the label.\<close>

definition new_row :: "segmentations \<Rightarrow> new_data \<Rightarrow> row \<Rightarrow> py_error + new_data" where
  "new_row segmentations acc row =
     bind (bind (getitem row ''scaled_sample'') float_obj) (\<lambda>scaled_sample.
     bind (getitem row ''read_id'') (\<lambda>read.
     bind (getitem row ''chr'') (\<lambda>contig.
     bind (bind (getitem row ''idx'') int_obj) (\<lambda>index.
     bind (region_search_obj read index segmentations) (\<lambda>region.
       Inr \<lparr>S_samples = (if region = 0 then S_samples acc @ [scaled_sample] else S_samples acc),
            L_samples = (if region = 1 then L_samples acc @ [scaled_sample] else L_samples acc),
            A_samples = (if region = 2 then A_samples acc @ [scaled_sample] else A_samples acc),
            P_samples = (if region = 3 then P_samples acc @ [scaled_sample] else P_samples acc),
            T_samples = (if region = 5 then T_samples acc @ [scaled_sample]
                         else T_samples acc)\<rparr>)))))"

definition new_tsv_to_numpy :: "string list list \<Rightarrow> segmentations \<Rightarrow> py_error + new_data" where
  "new_tsv_to_numpy f segmentations =
     for_rows (new_row segmentations) (DictReader samples_headers f)
       \<lparr>S_samples = [], L_samples = [], A_samples = [], P_samples = [], T_samples = []\<rparr>"

subsection \<open>The numerical library\<close>

text \<open>
  The script calls \<open>scipy.stats.norm\<close>, \<open>sklearn.mixture.GaussianMixture\<close> and a few
  \<open>numpy\<close> operations. They are not part of the repository, so the functions that call
  them take them as a parameter: a record of the operations, over the type \<open>'f\<close> of the
  floats; an array of shape \<open>(n,)\<close> is a list.
  \<open>GaussianMixture_fit n samples\<close> stands for fitting \<open>GaussianMixture(n_components=n)\<close>
  to the reshaped samples and reading, for each component \<open>c\<close>, \<open>weights_[c]\<close>,
  \<open>means_[c][0]\<close> and \<open>covariances_[c][0][0]\<close>.
\<close>

record 'f numlib =
  norm_fit :: "'f list \<Rightarrow> py_error + 'f \<times> 'f"
  norm_pdf :: "'f list \<Rightarrow> 'f \<Rightarrow> 'f \<Rightarrow> 'f list"
  norm_logpdf :: "'f list \<Rightarrow> 'f \<Rightarrow> 'f \<Rightarrow> 'f list"
  GaussianMixture_fit :: "nat \<Rightarrow> 'f list \<Rightarrow> py_error + ('f \<times> 'f \<times> 'f) list"
  np_sqrt :: "'f \<Rightarrow> 'f"
  np_log :: "'f list \<Rightarrow> 'f list"
  np_mean :: "'f list \<Rightarrow> 'f"
  np_times :: "'f \<Rightarrow> 'f list \<Rightarrow> 'f list"
  np_plus :: "'f list \<Rightarrow> 'f list \<Rightarrow> 'f list"

text \<open>Lines 36-39: the pair that \<open>norm.fit\<close> returns is passed on unchanged.\<close>

definition fit_gaussian :: "'f numlib \<Rightarrow> 'f list \<Rightarrow> py_error + 'f \<times> 'f" where
  "fit_gaussian L samples = bind (norm_fit L samples) (\<lambda>(mu, sigma). Inr (mu, sigma))"

text \<open>Lines 42-49: one triple \<open>(coeff, mu, sigma)\<close> per component.\<close>

definition fit_gmm :: "'f numlib \<Rightarrow> 'f list \<Rightarrow> nat \<Rightarrow> py_error + ('f \<times> 'f \<times> 'f) list" where
  "fit_gmm L samples ncomponents = GaussianMixture_fit L ncomponents samples"

text \<open>
  The operations in exact real arithmetic, as the library documents them:
  \<open>norm.fit\<close> returns the maximum-likelihood estimates \<open>(loc, scale)\<close>, the mean of the data
  and the square root of the mean squared deviation from it; \<open>norm.pdf(x, loc, scale)\<close> is
  \<open>exp(-((x - loc) / scale)\<^sup>2 / 2) / sqrt(2 \<pi>) / scale\<close> and \<open>norm.logpdf\<close> its logarithm;
  the \<open>numpy\<close> operations work elementwise. This instance has neither rounding nor
  underflow, and where Python yields NaN or an infinity (the mean or the fit of an empty
  array, a scale or an argument of the logarithm that is not positive) a real number
  stands in. It is used only for \<open>norm.fit\<close> at a non-empty array of small integers
  whose mean and deviation are integers, where the floating-point results are the same
  numbers.
  Expectation-maximisation is not modelled: the mixture fit stays a parameter.
\<close>

definition exact_norm_fit :: "real list \<Rightarrow> real \<times> real" where
  "exact_norm_fit data =
     (let loc = sum_list data / real (length data);
          scale = sqrt (sum_list (map (\<lambda>x. (x - loc) ^ 2) data) / real (length data))
      in (loc, scale))"

definition exact_norm_pdf :: "real \<Rightarrow> real \<Rightarrow> real \<Rightarrow> real" where
  "exact_norm_pdf x loc scale = exp (- (((x - loc) / scale) ^ 2) / 2) / sqrt (2 * pi) / scale"

definition exact_norm_logpdf :: "real \<Rightarrow> real \<Rightarrow> real \<Rightarrow> real" where
  "exact_norm_logpdf x loc scale = - (((x - loc) / scale) ^ 2) / 2 - ln (sqrt (2 * pi)) - ln scale"

definition exact_lib :: "(nat \<Rightarrow> real list \<Rightarrow> py_error + (real \<times> real \<times> real) list) \<Rightarrow> real numlib" where
  "exact_lib gmm =
     \<lparr>norm_fit = (\<lambda>data. Inr (exact_norm_fit data)),
      norm_pdf = (\<lambda>xs loc scale. map (\<lambda>x. exact_norm_pdf x loc scale) xs),
      norm_logpdf = (\<lambda>xs loc scale. map (\<lambda>x. exact_norm_logpdf x loc scale) xs),
      GaussianMixture_fit = gmm,
      np_sqrt = sqrt,
      np_log = map ln,
      np_mean = (\<lambda>xs. sum_list xs / real (length xs)),
      np_times = (\<lambda>c xs. map (\<lambda>x. c * x) xs),
      np_plus = (\<lambda>xs ys. map (\<lambda>(x, y). x + y) (zip xs ys))\<rparr>"

subsection \<open>\<open>main\<close>\<close>

text \<open>
  The new average log-likelihood of a region fitted by one Gaussian (lines 255, 260 and
  272) and of a region fitted by a mixture (lines 265-267 and 277-279, the same three
  statements for ADAPTER and TRANSCRIPT).
\<close>

definition gaussian_llh :: "'f numlib \<Rightarrow> 'f list \<Rightarrow> 'f \<Rightarrow> 'f \<Rightarrow> 'f" where
  "gaussian_llh L samples new_mu new_sigma =
     np_mean L (norm_logpdf L samples new_mu (np_sqrt L new_sigma))"

definition mixture_llh :: "'f numlib \<Rightarrow> 'f list \<Rightarrow> 'f \<times> 'f \<times> 'f \<Rightarrow> 'f \<times> 'f \<times> 'f \<Rightarrow> 'f" where
  "mixture_llh L samples c0 c1 =
     (case (c0, c1) of ((new_pi0, new_mu0, new_sig0), (new_pi1, new_mu1, new_sig1)) \<Rightarrow>
        (let new_llh0 = np_times L new_pi0 (norm_pdf L samples new_mu0 (np_sqrt L new_sig0));
             new_llh1 = np_times L new_pi1 (norm_pdf L samples new_mu1 (np_sqrt L new_sig1))
         in np_mean L (np_log L (np_plus L new_llh0 new_llh1))))"

text \<open>Unpacking the list of components into two triples; any other length raises.\<close>

definition unpack2 :: "'a list \<Rightarrow> py_error + 'a \<times> 'a" where
  "unpack2 xs = (case xs of [a, b] \<Rightarrow> Inr (a, b) | _ \<Rightarrow> Inl ValueError)"

text \<open>
  A printed line is the format string with the values handed to \<open>format\<close>. The three
  files are given by their contents. The result is what a run that ends normally has
  written to standard output; a run that raises is \<open>Inl\<close>.
\<close>

type_synonym 'f out_line = "string \<times> 'f list"

definition params_gaussian :: "'f numlib \<Rightarrow> string \<Rightarrow> 'f \<Rightarrow> 'f \<Rightarrow> 'f out_line" where
  "params_gaussian L fmt mu sigma = (fmt, [mu, sigma, np_sqrt L sigma])"

definition params_component :: "'f numlib \<Rightarrow> string \<Rightarrow> 'f \<times> 'f \<times> 'f \<Rightarrow> 'f out_line" where
  "params_component L fmt c = (case c of (p, mu, sig) \<Rightarrow> (fmt, [p, mu, sig, np_sqrt L sig]))"

definition llh_fmt :: string where
  "llh_fmt = ''> Old avg. log-likelihood: {0} | New avg. log-likelihood: {1}''"

definition main ::
  "pyfloat numlib \<Rightarrow> string list list \<Rightarrow> string list list \<Rightarrow> string list list \<Rightarrow> bool \<Rightarrow>
   py_error + pyfloat out_line list" where
  "main L old_samples_tsv old_segmentations_tsv new_samples_tsv benchmark =
     bind (old_tsv_to_numpy old_samples_tsv) (\<lambda>old_data.
     bind (make_segmentation_dict old_segmentations_tsv) (\<lambda>segmentations.
     bind (new_tsv_to_numpy new_samples_tsv segmentations) (\<lambda>new_data.
     bind (fit_gaussian L (S_samples new_data)) (\<lambda>(new_mu_S, new_sigma_S).
     bind (fit_gaussian L (L_samples new_data)) (\<lambda>(new_mu_L, new_sigma_L).
     bind (bind (fit_gmm L (A_samples new_data) 2) unpack2) (\<lambda>(new_A0, new_A1).
     bind (fit_gaussian L (P_samples new_data)) (\<lambda>(new_mu_P, new_sigma_P).
     bind (bind (fit_gmm L (T_samples new_data) 2) unpack2) (\<lambda>(new_T0, new_T1).
       let out =
         [(''Loading data from TSV...'', []),
          (''... Datasets loaded.'', []),
          (''Fitting gaussians to new scaled samples (this may take a while)...'', []),
          params_gaussian L ''New params for START: mu = {0}, var = {1}, stdv = {2}''
            new_mu_S new_sigma_S,
          params_gaussian L ''New params for LEADER: mu = {0}, var = {1}, stdv = {2}''
            new_mu_L new_sigma_L,
          params_component L
            ''New params for ADAPTER0: pi = {0}, mu = {1}, var = {2}, stdv = {3}'' new_A0,
          params_component L
            ''New params for ADAPTER1: pi = {0}, mu = {1}, var = {2}, stdv = {3}'' new_A1,
          params_gaussian L ''New params for POLYA: mu = {0}, var = {1}, stdv = {2}''
            new_mu_P new_sigma_P,
          params_component L
            ''New params for TRANSCR0: pi = {0}, mu = {1}, var = {2}, stdv = {3}'' new_T0,
          params_component L
            ''New params for TRANSCR1: pi = {0}, mu = {1}, var = {2}, stdv = {3}'' new_T1]
       in if \<not> benchmark then Inr out
          else Inr (out @
            [(''===== Emission Log-Likelihood Benchmarks ====='', []),
             (''> Average START log-probs:'', []),
             (llh_fmt, [np_mean L (S_loglkhd old_data),
                        gaussian_llh L (S_samples new_data) new_mu_S new_sigma_S]),
             (''> Average LEADER log-probs:'', []),
             (llh_fmt, [np_mean L (L_loglkhd old_data),
                        gaussian_llh L (L_samples new_data) new_mu_L new_sigma_L]),
             (''> Average ADAPTER log-probs:'', []),
             (llh_fmt, [np_mean L (A_loglkhd old_data),
                        mixture_llh L (A_samples new_data) new_A0 new_A1]),
             (''> Average POLYA log-probs:'', []),
             (llh_fmt, [np_mean L (P_loglkhd old_data),
                        gaussian_llh L (P_samples new_data) new_mu_P new_sigma_P]),
             (''> Average TRANSCRIPT log-probs:'', []),
             (llh_fmt, [np_mean L (T_loglkhd old_data),
                        mixture_llh L (T_samples new_data) new_T0 new_T1])])))))))))"

subsection \<open>The command line\<close>

text \<open>
  \<open>bool(s)\<close> for a string is its truth value: every string but the empty one is true.
\<close>

definition py_bool :: "string \<Rightarrow> bool" where
  "py_bool s = (s \<noteq> [])"

text \<open>
  Line 289: \<open>add_argument("--benchmark", default=True, type=bool, dest="benchmark")\<close>.
  The value of \<open>args.benchmark\<close>, from the argument string given to the option on the
  command line (\<open>None\<close> when the option is absent): \<open>argparse\<close> applies \<open>type\<close> to the
  string, and uses \<open>default\<close> as it is.
\<close>

definition benchmark_option :: "string option \<Rightarrow> bool" where
  "benchmark_option arg = (case arg of None \<Rightarrow> True | Some s \<Rightarrow> py_bool s)"

section \<open>The specification's notions\<close>

text \<open>
  Section 4.3: the last key, in iteration order, whose value truncated to the length of
  \<open>read_id\<close> equals \<open>read_id\<close>.
\<close>

definition last_prefix_match :: "string \<Rightarrow> string list \<Rightarrow> string option" where
  "last_prefix_match read_id keys =
     (case filter (\<lambda>k. take (length read_id) k = read_id) keys of
        [] \<Rightarrow> None
      | m # ms \<Rightarrow> Some (last (m # ms)))"

text \<open>Section 4.3: the region of a sample index with respect to the four boundaries.\<close>

definition spec_region :: "segment \<Rightarrow> int \<Rightarrow> int" where
  "spec_region s i =
     (if i < L_start s then START
      else if i < A_start s then LEADER
      else if i < P_start s then ADAPTER
      else if i \<le> P_end s then POLYA
      else TRANSCRIPT)"

text \<open>
  Sections 3 and 4.2: the read identifier of a segmentation row, its four boundaries
  (parsed as floating point, then truncated to integer), and the rows that are the first
  with their read identifier (\<open>seen\<close> holds the identifiers met so far).
\<close>

definition read_id_of :: "row \<Rightarrow> string option" where
  "read_id_of row = (case map_of row ''read_id'' of None \<Rightarrow> None | Some v \<Rightarrow> v)"

definition boundaries_of :: "row \<Rightarrow> py_error + segment" where
  "boundaries_of row =
     bind (bind (bind (getitem row ''L_start'') float_obj) int_of_float) (\<lambda>l.
     bind (bind (bind (getitem row ''A_start'') float_obj) int_of_float) (\<lambda>a.
     bind (bind (bind (getitem row ''P_start'') float_obj) int_of_float) (\<lambda>p.
     bind (bind (bind (getitem row ''P_end'') float_obj) int_of_float) (\<lambda>pe.
       Inr \<lparr>L_start = l, A_start = a, P_start = p, P_end = pe\<rparr>))))"

fun first_seen :: "string list \<Rightarrow> row list \<Rightarrow> row list" where
  "first_seen seen [] = []"
| "first_seen seen (r # rs) =
     (case read_id_of r of
        None \<Rightarrow> r # first_seen seen rs
      | Some k \<Rightarrow> if k \<in> set seen then first_seen seen rs else r # first_seen (k # seen) rs)"

text \<open>Section 4.4: the classified region of a row of the new-model samples file.\<close>

definition row_label :: "segmentations \<Rightarrow> row \<Rightarrow> py_error + int" where
  "row_label segmentations row =
     bind (getitem row ''read_id'') (\<lambda>read.
     bind (bind (getitem row ''idx'') int_obj) (\<lambda>index.
       region_search_obj read index segmentations))"

text \<open>
  Section 4.5: the maximum-likelihood fit of a univariate normal distribution to the
  values is their mean and their mean squared deviation from it, the variance.
\<close>

definition ml_mean :: "real list \<Rightarrow> real" where
  "ml_mean values = sum_list values / real (length values)"

definition ml_variance :: "real list \<Rightarrow> real" where
  "ml_variance values =
     sum_list (map (\<lambda>x. (x - ml_mean values) ^ 2) values) / real (length values)"



text \<open>
  Sections 4.1 and 7: the value of a named field of a line, a non-numeric value (a
  string that is no floating-point literal), and a load that fails at a line, where the
  lines after it play no part in the result.
\<close>

definition field :: "string list \<Rightarrow> string list \<Rightarrow> string \<Rightarrow> string option" where
  "field fieldnames line k =
     (case map_of (DictReader_row fieldnames line) k of None \<Rightarrow> None | Some v \<Rightarrow> v)"

definition non_numeric :: "string option \<Rightarrow> bool" where
  "non_numeric v = (case v of None \<Rightarrow> False | Some s \<Rightarrow> py_float s = None)"

definition aborts_at ::
  "(string list list \<Rightarrow> py_error + 'a) \<Rightarrow> string list list \<Rightarrow> string list \<Rightarrow> string list list \<Rightarrow> bool" where
  "aborts_at load before line after =
     ((\<exists>e. load (before @ line # after) = Inl e) \<and>
      load (before @ line # after) = load (before @ [line]))"

text \<open>
  Two lines that are both blank or both not, and carry the same values in the named
  fields.
\<close>

definition same_on :: "string list \<Rightarrow> string list \<Rightarrow> string list \<Rightarrow> string list \<Rightarrow> bool" where
  "same_on fieldnames keys line line' =
     ((line = [] \<longleftrightarrow> line' = []) \<and>
      (\<forall>k \<in> set keys. field fieldnames line k = field fieldnames line' k))"

text \<open>Section 8, property 4: the sizes of the five aggregated collections together.\<close>

definition total :: "new_data \<Rightarrow> nat" where
  "total d = length (S_samples d) + length (L_samples d) + length (A_samples d) +
             length (P_samples d) + length (T_samples d)"

section \<open>Properties of the region classifier\<close>

lemma take_eq_prefix: "take (length r) k = r \<longleftrightarrow> prefix r k"
  by (metis prefix_def append_eq_conv_conj append_take_drop_id)

lemma find_read_key_filter:
  "find_read_key r ks acc =
     (case filter (\<lambda>k. take (length r) k = r) ks of [] \<Rightarrow> acc | m # ms \<Rightarrow> Some (last (m # ms)))"
  by (induction ks arbitrary: acc) (auto split: list.splits)

lemma find_read_key_last: "find_read_key r ks None = last_prefix_match r ks"
  by (simp add: find_read_key_filter last_prefix_match_def)

lemma last_prefix_match_mem:
  assumes "last_prefix_match r ks = Some k"
  shows "k \<in> set ks \<and> take (length r) k = r"
proof -
  let ?ms = "filter (\<lambda>k. take (length r) k = r) ks"
  from assms have "?ms \<noteq> []" and "k = last ?ms"
    by (auto simp: last_prefix_match_def split: list.splits)
  then have "k \<in> set ?ms" using last_in_set by blast
  then show ?thesis by simp
qed

lemma last_prefix_match_None:
  "last_prefix_match r ks = None \<longleftrightarrow> (\<forall>k \<in> set ks. \<not> prefix r k)"
proof -
  have "last_prefix_match r ks = None \<longleftrightarrow> filter (\<lambda>k. take (length r) k = r) ks = []"
    unfolding last_prefix_match_def
    by (cases "filter (\<lambda>k. take (length r) k = r) ks") simp_all
  also have "\<dots> \<longleftrightarrow> (\<forall>k \<in> set ks. take (length r) k \<noteq> r)"
    by (simp only: filter_empty_conv)
  also have "\<dots> \<longleftrightarrow> (\<forall>k \<in> set ks. \<not> prefix r k)"
    by (simp only: take_eq_prefix)
  finally show ?thesis .
qed

lemma region_search_matched:
  "find_read_key r (map fst segs) None = Some k \<Longrightarrow> map_of segs k = Some s \<Longrightarrow>
   region_search r i segs = Inr (spec_region s i)"
  by (auto simp: region_search_def spec_region_def Let_def)

lemma region_search_unmatched:
  "find_read_key r (map fst segs) None = None \<Longrightarrow> region_search r i segs = Inr UNKNOWN"
  by (simp add: region_search_def)

lemma map_of_key_Some: "k \<in> set (map fst segs) \<Longrightarrow> \<exists>s. map_of segs k = Some s"
  by (metis map_of_eq_None_iff not_Some_eq set_map)

text \<open>
  Claim C3. The key that \<open>region_search\<close> selects is the last key, in the iteration order
  of the index, whose truncation to the length of the read identifier equals the read
  identifier; the answer is computed from that key's boundaries; and when no key has the
  read identifier as a prefix the answer is UNKNOWN, whatever the sample index.
\<close>

theorem region_search_last_prefix_match:
  "find_read_key read_id (map fst segs) None = last_prefix_match read_id (map fst segs) \<and>
   ((\<forall>k \<in> set (map fst segs). \<not> prefix read_id k) \<longrightarrow>
      region_search read_id i segs = Inr UNKNOWN) \<and>
   (\<forall>k. last_prefix_match read_id (map fst segs) = Some k \<longrightarrow>
      (\<exists>s. map_of segs k = Some s \<and> region_search read_id i segs = Inr (spec_region s i)))"
proof (intro conjI allI impI)
  show "find_read_key read_id (map fst segs) None = last_prefix_match read_id (map fst segs)"
    by (rule find_read_key_last)
next
  assume "\<forall>k \<in> set (map fst segs). \<not> prefix read_id k"
  then have "last_prefix_match read_id (map fst segs) = None"
    by (simp only: last_prefix_match_None)
  then show "region_search read_id i segs = Inr UNKNOWN"
    by (simp add: region_search_unmatched find_read_key_last)
next
  fix k assume m: "last_prefix_match read_id (map fst segs) = Some k"
  then have "k \<in> set (map fst segs)" using last_prefix_match_mem by blast
  then have "\<exists>s. map_of segs k = Some s" by (rule map_of_key_Some)
  then obtain s where s: "map_of segs k = Some s" ..
  from m have "find_read_key read_id (map fst segs) None = Some k"
    by (simp only: find_read_key_last)
  then have "region_search read_id i segs = Inr (spec_region s i)"
    using s by (rule region_search_matched)
  with s show "\<exists>s. map_of segs k = Some s \<and> region_search read_id i segs = Inr (spec_region s i)"
    by blast
qed

theorem region_search_last_prefix_match_witness:
  "region_search ''q'' 15
     [(''ab'', \<lparr>L_start = 10, A_start = 20, P_start = 30, P_end = 50\<rparr>),
      (''abc'', \<lparr>L_start = 100, A_start = 200, P_start = 300, P_end = 500\<rparr>),
      (''xy'', \<lparr>L_start = 1, A_start = 2, P_start = 3, P_end = 4\<rparr>)] = Inr UNKNOWN \<and>
   last_prefix_match ''ab'' (map fst
     [(''ab'', \<lparr>L_start = 10, A_start = 20, P_start = 30, P_end = 50\<rparr>),
      (''abc'', \<lparr>L_start = 100, A_start = 200, P_start = 300, P_end = 500\<rparr>),
      (''xy'', \<lparr>L_start = 1, A_start = 2, P_start = 3, P_end = 4\<rparr>)]) = Some ''abc'' \<and>
   region_search ''ab'' 15
     [(''ab'', \<lparr>L_start = 10, A_start = 20, P_start = 30, P_end = 50\<rparr>),
      (''abc'', \<lparr>L_start = 100, A_start = 200, P_start = 300, P_end = 500\<rparr>),
      (''xy'', \<lparr>L_start = 1, A_start = 2, P_start = 3, P_end = 4\<rparr>)] =
     Inr (spec_region \<lparr>L_start = 100, A_start = 200, P_start = 300, P_end = 500\<rparr> 15)"
proof -
  let ?segs = "[(''ab'', \<lparr>L_start = 10, A_start = 20, P_start = 30, P_end = 50\<rparr>),
                (''abc'', \<lparr>L_start = 100, A_start = 200, P_start = 300, P_end = 500\<rparr>),
                (''xy'', \<lparr>L_start = 1, A_start = 2, P_start = 3, P_end = 4\<rparr>)]"
  have none: "\<forall>k \<in> set (map fst ?segs). \<not> prefix ''q'' k" by simp
  have m: "last_prefix_match ''ab'' (map fst ?segs) = Some ''abc''"
    by (simp add: last_prefix_match_def)
  from region_search_last_prefix_match [of "''q''" ?segs 15] none
  have u: "region_search ''q'' 15 ?segs = Inr UNKNOWN" by blast
  from region_search_last_prefix_match [of "''ab''" ?segs 15] m
  have "\<exists>s. map_of ?segs ''abc'' = Some s \<and> region_search ''ab'' 15 ?segs = Inr (spec_region s 15)"
    by blast
  then have r: "region_search ''ab'' 15 ?segs =
      Inr (spec_region \<lparr>L_start = 100, A_start = 200, P_start = 300, P_end = 500\<rparr> 15)"
    by simp
  from u m r show ?thesis by blast
qed

lemma find_read_key_nonempty:
  assumes "filter (\<lambda>k. take (length r) k = r) ks \<noteq> []"
  shows "find_read_key r ks acc = Some (last (filter (\<lambda>k. take (length r) k = r) ks))"
proof -
  obtain m ms where e: "filter (\<lambda>k. take (length r) k = r) ks = m # ms"
    using assms by (cases "filter (\<lambda>k. take (length r) k = r) ks") auto
  have "find_read_key r ks acc =
        (case filter (\<lambda>k. take (length r) k = r) ks of [] \<Rightarrow> acc | m # ms \<Rightarrow> Some (last (m # ms)))"
    by (rule find_read_key_filter)
  then show ?thesis by (simp only: e list.case)
qed

lemma find_read_key_unshadowed:
  assumes "\<forall>k \<in> set after. \<not> prefix r k"
  shows "find_read_key r (before @ r # after) None = Some r"
proof -
  have "filter (\<lambda>k. take (length r) k = r) after = []"
    using assms by (simp only: filter_empty_conv take_eq_prefix) 
  then have f: "filter (\<lambda>k. take (length r) k = r) (before @ r # after) =
             filter (\<lambda>k. take (length r) k = r) before @ [r]"
    by simp
  then have "filter (\<lambda>k. take (length r) k = r) (before @ r # after) \<noteq> []" by simp
  then have "find_read_key r (before @ r # after) None =
             Some (last (filter (\<lambda>k. take (length r) k = r) (before @ r # after)))"
    by (rule find_read_key_nonempty)
  then show ?thesis by (simp only: f last_snoc)
qed

lemma map_of_distinct_middle:
  assumes "distinct (map fst (before @ (k, v) # after))"
  shows "map_of (before @ (k, v) # after) k = Some v"
proof -
  from assms have "k \<notin> fst ` set before" by auto
  then have "map_of before k = None" by (simp add: map_of_eq_None_iff)
  then show ?thesis by (simp add: map_add_def)
qed

lemma last_prefix_match_empty:
  "ks \<noteq> [] \<Longrightarrow> last_prefix_match [] ks = Some (last ks)"
  by (cases ks) (simp_all add: last_prefix_match_def)

lemma map_of_distinct_last:
  assumes "segs \<noteq> []" and "distinct (map fst segs)"
  shows "map_of segs (fst (last segs)) = Some (snd (last segs))"
proof -
  from assms(1) have e: "segs = butlast segs @ (fst (last segs), snd (last segs)) # []"
    by simp
  have "distinct (map fst (butlast segs @ (fst (last segs), snd (last segs)) # []))"
    using assms(2) e by simp
  then have "map_of (butlast segs @ (fst (last segs), snd (last segs)) # []) (fst (last segs))
             = Some (snd (last segs))"
    by (rule map_of_distinct_middle)
  with e show ?thesis by simp
qed

text \<open>
  Claim C2, as amended. A read identifier that is a key of the index is classified by its
  own boundaries whenever no key after it in the iteration order has it as a prefix:
  START below \<open>L_start\<close>, else LEADER below \<open>A_start\<close>, else ADAPTER below \<open>P_start\<close>,
  else POLYA up to and including \<open>P_end\<close>, else TRANSCRIPT. For the boundaries 10, 20,
  30, 50 the indices 5, 15, 25, 30, 50, 51 give START, LEADER, ADAPTER, POLYA, POLYA,
  TRANSCRIPT.
\<close>

theorem region_search_present_unshadowed:
  assumes "distinct (map fst segs)"
    and "segs = before @ (read_id, s) # after"
    and "\<forall>k \<in> set (map fst after). \<not> prefix read_id k"
  shows "region_search read_id i segs =
           Inr (if i < L_start s then START
                else if i < A_start s then LEADER
                else if i < P_start s then ADAPTER
                else if i \<le> P_end s then POLYA
                else TRANSCRIPT)"
proof -
  have "find_read_key read_id (map fst before @ read_id # map fst after) None = Some read_id"
    using assms(3) by (rule find_read_key_unshadowed)
  then have k: "find_read_key read_id (map fst segs) None = Some read_id"
    by (simp add: assms(2))
  have m: "map_of segs read_id = Some s"
    using assms(1) unfolding assms(2) by (rule map_of_distinct_middle)
  from k m have "region_search read_id i segs = Inr (spec_region s i)"
    by (rule region_search_matched)
  then show ?thesis by (simp add: spec_region_def)
qed

theorem region_search_present_unshadowed_witness:
  "region_search ''r1'' 5 [(''r1'', \<lparr>L_start = 10, A_start = 20, P_start = 30, P_end = 50\<rparr>)] = Inr START \<and>
   region_search ''r1'' 15 [(''r1'', \<lparr>L_start = 10, A_start = 20, P_start = 30, P_end = 50\<rparr>)] = Inr LEADER \<and>
   region_search ''r1'' 25 [(''r1'', \<lparr>L_start = 10, A_start = 20, P_start = 30, P_end = 50\<rparr>)] = Inr ADAPTER \<and>
   region_search ''r1'' 30 [(''r1'', \<lparr>L_start = 10, A_start = 20, P_start = 30, P_end = 50\<rparr>)] = Inr POLYA \<and>
   region_search ''r1'' 50 [(''r1'', \<lparr>L_start = 10, A_start = 20, P_start = 30, P_end = 50\<rparr>)] = Inr POLYA \<and>
   region_search ''r1'' 51 [(''r1'', \<lparr>L_start = 10, A_start = 20, P_start = 30, P_end = 50\<rparr>)] = Inr TRANSCRIPT"
proof -
  let ?s = "\<lparr>L_start = 10, A_start = 20, P_start = 30, P_end = 50\<rparr>"
  have d: "distinct (map fst [(''r1'', ?s)])" by simp
  have e: "[(''r1'', ?s)] = [] @ (''r1'', ?s) # []" by simp
  have n: "\<forall>k \<in> set (map fst ([] :: segmentations)). \<not> prefix ''r1'' k" by simp
  note t = region_search_present_unshadowed [OF d e n]
  show ?thesis
    using t [of 5] t [of 15] t [of 25] t [of 30] t [of 50] t [of 51] by simp
qed

text \<open>
  Claim C2 as stated fails for a key that a later key extends: with the keys \<open>ab\<close>
  (boundaries 10, 20, 30, 50) and then \<open>abc\<close> (boundaries 100, 200, 300, 500), the read
  identifier \<open>ab\<close> is in the index, the sample index 15 lies between its \<open>L_start\<close> and
  its \<open>A_start\<close>, and yet the answer is START, from the boundaries of \<open>abc\<close>.
\<close>

theorem region_search_shadowed_counterexample:
  "distinct (map fst [(''ab'', \<lparr>L_start = 10, A_start = 20, P_start = 30, P_end = 50\<rparr>),
                      (''abc'', \<lparr>L_start = 100, A_start = 200, P_start = 300, P_end = 500\<rparr>)]) \<and>
   map_of [(''ab'', \<lparr>L_start = 10, A_start = 20, P_start = 30, P_end = 50\<rparr>),
           (''abc'', \<lparr>L_start = 100, A_start = 200, P_start = 300, P_end = 500\<rparr>)] ''ab''
     = Some \<lparr>L_start = 10, A_start = 20, P_start = 30, P_end = 50\<rparr> \<and>
   \<not> (15::int) < 10 \<and> (15::int) < 20 \<and>
   region_search ''ab'' 15
     [(''ab'', \<lparr>L_start = 10, A_start = 20, P_start = 30, P_end = 50\<rparr>),
      (''abc'', \<lparr>L_start = 100, A_start = 200, P_start = 300, P_end = 500\<rparr>)] = Inr START"
  by (simp add: region_search_def)

text \<open>
  Claim C9. When a key is matched and its boundaries are ordered, the result is one of
  the five region labels: the final \<open>return 6\<close> is not reached.
\<close>

theorem region_search_exhaustive:
  assumes "last_prefix_match read_id (map fst segs) = Some k"
    and "map_of segs k = Some s"
    and "L_start s \<le> A_start s" and "A_start s \<le> P_start s" and "P_start s \<le> P_end s"
  shows "region_search read_id i segs \<in> Inr ` {START, LEADER, ADAPTER, POLYA, TRANSCRIPT} \<and>
         region_search read_id i segs \<noteq> Inr UNKNOWN"
proof -
  from assms(1) have "find_read_key read_id (map fst segs) None = Some k"
    by (simp only: find_read_key_last)
  then have "region_search read_id i segs = Inr (spec_region s i)"
    using assms(2) by (rule region_search_matched)
  then show ?thesis by (simp add: spec_region_def)
qed

theorem region_search_exhaustive_witness:
  "region_search ''r'' 51
     [(''r1'', \<lparr>L_start = 10, A_start = 20, P_start = 30, P_end = 50\<rparr>)]
     \<in> Inr ` {START, LEADER, ADAPTER, POLYA, TRANSCRIPT} \<and>
   region_search ''r'' 51
     [(''r1'', \<lparr>L_start = 10, A_start = 20, P_start = 30, P_end = 50\<rparr>)] \<noteq> Inr UNKNOWN"
proof -
  let ?s = "\<lparr>L_start = 10, A_start = 20, P_start = 30, P_end = 50\<rparr>"
  have a: "last_prefix_match ''r'' (map fst [(''r1'', ?s)]) = Some ''r1''"
    by (simp add: last_prefix_match_def)
  have b: "map_of [(''r1'', ?s)] ''r1'' = Some ?s" by simp
  have c: "L_start ?s \<le> A_start ?s" "A_start ?s \<le> P_start ?s" "P_start ?s \<le> P_end ?s"
    by simp_all
  show ?thesis by (rule region_search_exhaustive [OF a b c])
qed

text \<open>
  Claim C10. With a non-empty index the empty read identifier matches the last key of
  the iteration order, the result is the region of the sample index within that key's
  boundaries, and it is never UNKNOWN.
\<close>

theorem region_search_empty_read_id:
  assumes "segs \<noteq> []" and "distinct (map fst segs)"
  shows "last_prefix_match [] (map fst segs) = Some (fst (last segs)) \<and>
         region_search [] i segs = Inr (spec_region (snd (last segs)) i) \<and>
         region_search [] i segs \<noteq> Inr UNKNOWN"
proof -
  from assms(1) have l: "last_prefix_match [] (map fst segs) = Some (fst (last segs))"
    by (simp add: last_prefix_match_empty last_map)
  then have "find_read_key [] (map fst segs) None = Some (fst (last segs))"
    by (simp only: find_read_key_last)
  moreover have "map_of segs (fst (last segs)) = Some (snd (last segs))"
    using assms by (rule map_of_distinct_last)
  ultimately have r: "region_search [] i segs = Inr (spec_region (snd (last segs)) i)"
    by (rule region_search_matched)
  have "spec_region (snd (last segs)) i \<noteq> UNKNOWN" by (simp add: spec_region_def)
  with l r show ?thesis by simp
qed

theorem region_search_empty_read_id_witness:
  "last_prefix_match [] (map fst
     [(''ab'', \<lparr>L_start = 10, A_start = 20, P_start = 30, P_end = 50\<rparr>),
      (''xy'', \<lparr>L_start = 1, A_start = 2, P_start = 3, P_end = 4\<rparr>)]) = Some ''xy'' \<and>
   region_search [] 15
     [(''ab'', \<lparr>L_start = 10, A_start = 20, P_start = 30, P_end = 50\<rparr>),
      (''xy'', \<lparr>L_start = 1, A_start = 2, P_start = 3, P_end = 4\<rparr>)] = Inr TRANSCRIPT"
proof -
  let ?segs = "[(''ab'', \<lparr>L_start = 10, A_start = 20, P_start = 30, P_end = 50\<rparr>),
                (''xy'', \<lparr>L_start = 1, A_start = 2, P_start = 3, P_end = 4\<rparr>)]"
  have a: "?segs \<noteq> []" by simp
  have d: "distinct (map fst ?segs)" by simp
  from region_search_empty_read_id [OF a d, of 15] show ?thesis
    by (simp add: spec_region_def)
qed

section \<open>Properties of the loaders\<close>

lemma binary64_small: "\<bar>v\<bar> < 2 ^ 64 \<Longrightarrow> binary64 v = Finite v"
proof -
  assume a: "\<bar>v\<bar> < 2 ^ 64"
  have "(2::real) ^ 64 \<le> 2 ^ 1024 - 2 ^ 970" by simp
  with a have "\<not> 2 ^ 1024 - 2 ^ 970 \<le> \<bar>v\<bar>" by linarith
  then show ?thesis by (simp only: binary64_def if_False)
qed

lemmas parse_defs = binary64_small py_float_def py_int_def split_sign_def py_strip_def is_space_def
  floatnumber_def number_def digitpart_def is_digit_def digit_val_def lower_def

lemmas load_defs = DictReader_def getitem_def float_obj_def int_obj_def int_of_float_def
  samples_headers_def segmentation_headers_def

lemma bind_Inr [simp]: "bind (Inr x) f = f x"
  by (simp add: bind_def)

lemma bind_Inl [simp]: "bind (Inl e) f = Inl e"
  by (simp add: bind_def)

lemma bind_eq_Inr: "bind m f = Inr y \<longleftrightarrow> (\<exists>x. m = Inr x \<and> f x = Inr y)"
  by (cases m) simp_all

lemma bind_assoc: "bind (bind m f) g = bind m (\<lambda>x. bind (f x) g)"
  by (cases m) simp_all

lemma DictReader_row_key:
  "k \<in> set hs \<Longrightarrow> map_of (DictReader_row hs fs) k \<noteq> None"
  by (induction hs fs rule: DictReader_row.induct) auto

lemma DictReader_key:
  "r \<in> set (DictReader hs f) \<Longrightarrow> k \<in> set hs \<Longrightarrow> map_of r k \<noteq> None"
  using DictReader_row_key [of k hs] by (auto simp: DictReader_def)

lemma getitem_read_id:
  "map_of r ''read_id'' \<noteq> None \<Longrightarrow> getitem r ''read_id'' = Inr (read_id_of r)"
  by (auto simp: getitem_def read_id_of_def)

lemma segmentation_row_eq:
  assumes "map_of r ''read_id'' \<noteq> None"
  shows "segmentation_row segs r =
     (case read_id_of r of
        None \<Rightarrow> Inl TypeError
      | Some k \<Rightarrow>
          if k \<in> set (map fst segs) then Inr segs
          else bind (boundaries_of r) (\<lambda>s. Inr (segs @ [(k, s)])))"
  unfolding segmentation_row_def boundaries_of_def getitem_read_id [OF assms]
  by (simp add: bind_assoc split: option.splits)

lemma first_seen_cong:
  "set seen = set seen' \<Longrightarrow> first_seen seen rows = first_seen seen' rows"
proof (induction rows arbitrary: seen seen')
  case Nil
  show ?case by simp
next
  case (Cons r rows)
  show ?case
  proof (cases "read_id_of r")
    case None
    then show ?thesis using Cons.IH [OF Cons.prems] by simp
  next
    case (Some k)
    have "set (k # seen) = set (k # seen')" using Cons.prems by simp
    then have "first_seen (k # seen) rows = first_seen (k # seen') rows" by (rule Cons.IH)
    then show ?thesis using Some Cons.IH [OF Cons.prems] Cons.prems by simp
  qed
qed

lemma for_rows_first_seen:
  "\<forall>r \<in> set rows. map_of r ''read_id'' \<noteq> None \<Longrightarrow>
   for_rows segmentation_row (first_seen (map fst acc) rows) acc = for_rows segmentation_row rows acc"
proof (induction rows arbitrary: acc)
  case Nil
  show ?case by simp
next
  case (Cons r rows)
  then have key: "map_of r ''read_id'' \<noteq> None" by simp
  note step = segmentation_row_eq [OF key]
  from Cons.prems have rest: "\<forall>r \<in> set rows. map_of r ''read_id'' \<noteq> None" by simp
  show ?case
  proof (cases "read_id_of r")
    case None
    then show ?thesis by (simp add: step)
  next
    case (Some k)
    show ?thesis
    proof (cases "k \<in> set (map fst acc)")
      case True
      then show ?thesis using Some Cons.IH [OF rest, of acc] by (simp add: step)
    next
      case False
      show ?thesis
      proof (cases "boundaries_of r")
        case (Inl e)
        then show ?thesis using Some False by (simp add: step)
      next
        case (Inr s)
        have "set (k # map fst acc) = set (map fst (acc @ [(k, s)]))" by auto
        then have "first_seen (k # map fst acc) rows = first_seen (map fst (acc @ [(k, s)])) rows"
          by (rule first_seen_cong)
        then show ?thesis
          using Some False Inr Cons.IH [OF rest, of "acc @ [(k, s)]"] by (simp add: step)
      qed
    qed
  qed
qed

lemma for_rows_keys:
  "\<forall>r \<in> set rows. map_of r ''read_id'' \<noteq> None \<Longrightarrow>
   for_rows segmentation_row rows acc = Inr segs \<Longrightarrow> distinct (map fst acc) \<Longrightarrow>
   distinct (map fst segs) \<and>
   set (map fst segs) = set (map fst acc) \<union> {k. \<exists>r \<in> set rows. read_id_of r = Some k}"
proof (induction rows arbitrary: acc)
  case Nil
  then show ?case by simp
next
  case (Cons r rows)
  then have key: "map_of r ''read_id'' \<noteq> None" by simp
  note step = segmentation_row_eq [OF key]
  from Cons.prems have rest: "\<forall>r \<in> set rows. map_of r ''read_id'' \<noteq> None" by simp
  from Cons.prems(2) obtain acc' where a: "segmentation_row acc r = Inr acc'"
    and l: "for_rows segmentation_row rows acc' = Inr segs"
    by (auto split: sum.splits)
  from a obtain k where k: "read_id_of r = Some k"
    by (auto simp: step split: option.splits)
  show ?case
  proof (cases "k \<in> set (map fst acc)")
    case True
    with a k have "acc' = acc" by (simp add: step)
    with Cons.IH [OF rest, of acc] l Cons.prems(3) k True show ?thesis by auto
  next
    case False
    with a k obtain s where "acc' = acc @ [(k, s)]"
      by (auto simp: step bind_eq_Inr)
    moreover have "distinct (map fst (acc @ [(k, s)]))" using False Cons.prems(3) by simp
    ultimately show ?thesis using Cons.IH [OF rest, of "acc @ [(k, s)]"] l k by auto
  qed
qed

lemma for_rows_values:
  "\<forall>r \<in> set rows. map_of r ''read_id'' \<noteq> None \<Longrightarrow>
   for_rows segmentation_row rows acc = Inr segs \<Longrightarrow> distinct (map fst acc) \<Longrightarrow>
   map_of segs k = Some s \<Longrightarrow>
   map_of acc k = Some s \<or>
   (k \<notin> set (map fst acc) \<and>
    (\<exists>r. find (\<lambda>r. read_id_of r = Some k) rows = Some r \<and> boundaries_of r = Inr s))"
proof (induction rows arbitrary: acc)
  case Nil
  then show ?case by simp
next
  case (Cons r rows)
  then have key: "map_of r ''read_id'' \<noteq> None" by simp
  note step = segmentation_row_eq [OF key]
  from Cons.prems have rest: "\<forall>r \<in> set rows. map_of r ''read_id'' \<noteq> None" by simp
  from Cons.prems(2) obtain acc' where a: "segmentation_row acc r = Inr acc'"
    and l: "for_rows segmentation_row rows acc' = Inr segs"
    by (auto split: sum.splits)
  from a obtain k' where k': "read_id_of r = Some k'"
    by (auto simp: step split: option.splits)
  show ?case
  proof (cases "k' \<in> set (map fst acc)")
    case True
    with a k' have e: "acc' = acc" by (simp add: step)
    from Cons.IH [OF rest, of acc] l e Cons.prems(3,4)
    have "map_of acc k = Some s \<or>
      (k \<notin> set (map fst acc) \<and>
       (\<exists>r. find (\<lambda>r. read_id_of r = Some k) rows = Some r \<and> boundaries_of r = Inr s))"
      by simp
    moreover have "k \<notin> set (map fst acc) \<Longrightarrow> k' \<noteq> k" using True by auto
    ultimately show ?thesis using k' by auto
  next
    case False
    with a k' obtain s' where e: "acc' = acc @ [(k', s')]" and b: "boundaries_of r = Inr s'"
      by (auto simp: step bind_eq_Inr)
    have d: "distinct (map fst (acc @ [(k', s')]))" using False Cons.prems(3) by simp
    from Cons.IH [OF rest, of "acc @ [(k', s')]"] l e d Cons.prems(4)
    have ih: "map_of (acc @ [(k', s')]) k = Some s \<or>
      (k \<notin> set (map fst (acc @ [(k', s')])) \<and>
       (\<exists>r. find (\<lambda>r. read_id_of r = Some k) rows = Some r \<and> boundaries_of r = Inr s))"
      by simp
    have nk': "map_of acc k' = None" using False by (simp add: map_of_eq_None_iff)
    show ?thesis
    proof (cases "k = k'")
      case True
      with ih nk' have "s = s'" by (auto simp: map_add_def)
      with True False k' b show ?thesis by simp
    next
      case False
      with ih k' show ?thesis by (auto simp: map_add_def split: option.splits)
    qed
  qed
qed

text \<open>
  Claim C4. When \<open>make_segmentation_dict\<close> returns an index, its keys are pairwise
  distinct and are exactly the read identifiers of the rows; the boundaries stored for a
  key are those of the first row with that read identifier; and the rows that are not
  the first with their read identifier contribute nothing, not even an error: the index
  is the one built from the first rows alone.
\<close>

theorem make_segmentation_dict_first_wins:
  assumes "make_segmentation_dict f = Inr segs"
  shows "distinct (map fst segs) \<and>
         set (map fst segs) =
           {k. \<exists>r \<in> set (DictReader segmentation_headers f). read_id_of r = Some k} \<and>
         (\<forall>k s. map_of segs k = Some s \<longrightarrow>
            (\<exists>r. find (\<lambda>r. read_id_of r = Some k) (DictReader segmentation_headers f) = Some r \<and>
                 boundaries_of r = Inr s)) \<and>
         for_rows segmentation_row (first_seen [] (DictReader segmentation_headers f)) [] = Inr segs"
proof -
  let ?rows = "DictReader segmentation_headers f"
  have keys: "\<forall>r \<in> set ?rows. map_of r ''read_id'' \<noteq> None"
    using DictReader_key [of _ segmentation_headers f "''read_id''"]
    by (simp add: segmentation_headers_def)
  from assms have run: "for_rows segmentation_row ?rows [] = Inr segs"
    by (simp add: make_segmentation_dict_def)
  have d: "distinct (map fst ([] :: segmentations))" by simp
  from for_rows_keys [OF keys run d]
  have a: "distinct (map fst segs)"
    and b: "set (map fst segs) = {k. \<exists>r \<in> set ?rows. read_id_of r = Some k}"
    by simp_all
  have c: "\<exists>r. find (\<lambda>r. read_id_of r = Some k) ?rows = Some r \<and> boundaries_of r = Inr s"
    if "map_of segs k = Some s" for k s
    using for_rows_values [OF keys run d that] by simp
  have "for_rows segmentation_row (first_seen (map fst ([] :: segmentations)) ?rows) [] =
        for_rows segmentation_row ?rows []"
    using keys by (rule for_rows_first_seen)
  with run have e: "for_rows segmentation_row (first_seen [] ?rows) [] = Inr segs" by simp
  from a b c e show ?thesis by blast
qed

theorem make_segmentation_dict_first_wins_witness:
  "make_segmentation_dict
     [[''polya-segmentation'', ''r1'', ''161684804'', ''47.0'', ''1851.0'', ''8354.0'',
       ''11424.0'', ''73.76'', ''75.18'', ''35.23''],
      [''polya-segmentation'', ''r1'', ''0'', ''abc'', ''7.0'', ''8.0'', ''9.0'', ''1'', ''2'', ''3''],
      [''polya-segmentation'', ''r2'', ''5'', ''1.5'', ''2'', ''3e1'', ''40.9'', ''1'', ''2'', ''3'']]
   = Inr [(''r1'', \<lparr>L_start = 47, A_start = 1851, P_start = 8354, P_end = 11424\<rparr>),
          (''r2'', \<lparr>L_start = 1, A_start = 2, P_start = 30, P_end = 40\<rparr>)] \<and>
   distinct (map fst [(''r1'', \<lparr>L_start = 47, A_start = 1851, P_start = 8354, P_end = 11424\<rparr>),
                      (''r2'', \<lparr>L_start = 1, A_start = 2, P_start = 30, P_end = 40\<rparr>)]) \<and>
   for_rows segmentation_row
     (first_seen [] (DictReader segmentation_headers
       [[''polya-segmentation'', ''r1'', ''161684804'', ''47.0'', ''1851.0'', ''8354.0'',
         ''11424.0'', ''73.76'', ''75.18'', ''35.23''],
        [''polya-segmentation'', ''r1'', ''0'', ''abc'', ''7.0'', ''8.0'', ''9.0'', ''1'', ''2'', ''3''],
        [''polya-segmentation'', ''r2'', ''5'', ''1.5'', ''2'', ''3e1'', ''40.9'', ''1'', ''2'', ''3'']])) []
   = Inr [(''r1'', \<lparr>L_start = 47, A_start = 1851, P_start = 8354, P_end = 11424\<rparr>),
          (''r2'', \<lparr>L_start = 1, A_start = 2, P_start = 30, P_end = 40\<rparr>)]"
proof -
  have run: "make_segmentation_dict
     [[''polya-segmentation'', ''r1'', ''161684804'', ''47.0'', ''1851.0'', ''8354.0'',
       ''11424.0'', ''73.76'', ''75.18'', ''35.23''],
      [''polya-segmentation'', ''r1'', ''0'', ''abc'', ''7.0'', ''8.0'', ''9.0'', ''1'', ''2'', ''3''],
      [''polya-segmentation'', ''r2'', ''5'', ''1.5'', ''2'', ''3e1'', ''40.9'', ''1'', ''2'', ''3'']]
   = Inr [(''r1'', \<lparr>L_start = 47, A_start = 1851, P_start = 8354, P_end = 11424\<rparr>),
          (''r2'', \<lparr>L_start = 1, A_start = 2, P_start = 30, P_end = 40\<rparr>)]"
    by (simp add: make_segmentation_dict_def segmentation_row_def load_defs parse_defs)
  from make_segmentation_dict_first_wins [OF run] run show ?thesis by blast
qed

lemma getitem_present: "map_of r k \<noteq> None \<Longrightarrow> \<exists>v. getitem r k = Inr v"
  by (auto simp: getitem_def)

lemma region_search_labels:
  "region_search r i segs = Inr lab \<Longrightarrow> lab \<in> {START, LEADER, ADAPTER, POLYA, TRANSCRIPT, UNKNOWN}"
  by (auto simp: region_search_def Let_def split: option.splits if_splits)

lemma region_search_obj_labels:
  "region_search_obj v i segs = Inr lab \<Longrightarrow>
   lab \<in> {START, LEADER, ADAPTER, POLYA, TRANSCRIPT, UNKNOWN}"
  using region_search_labels [of _ i segs lab]
  by (auto simp: region_search_obj_def split: option.splits if_splits)

lemma getitem_field:
  "k \<in> set hs \<Longrightarrow> getitem (DictReader_row hs line) k = Inr (field hs line k)"
  using DictReader_row_key [of k hs line] by (auto simp: getitem_def field_def)

lemma new_row_eq:
  assumes "map_of r ''chr'' \<noteq> None"
  shows "new_row segs acc r =
     bind (bind (getitem r ''scaled_sample'') float_obj) (\<lambda>x.
     bind (row_label segs r) (\<lambda>lab.
       Inr \<lparr>S_samples = (if lab = 0 then S_samples acc @ [x] else S_samples acc),
            L_samples = (if lab = 1 then L_samples acc @ [x] else L_samples acc),
            A_samples = (if lab = 2 then A_samples acc @ [x] else A_samples acc),
            P_samples = (if lab = 3 then P_samples acc @ [x] else P_samples acc),
            T_samples = (if lab = 5 then T_samples acc @ [x] else T_samples acc)\<rparr>))"
proof -
  from assms obtain c where "getitem r ''chr'' = Inr c" using getitem_present by blast
  then show ?thesis
    by (simp add: new_row_def row_label_def bind_assoc)
qed

lemma new_row_total:
  assumes "map_of r ''chr'' \<noteq> None" and "new_row segs acc r = Inr acc'"
  shows "\<exists>lab. row_label segs r = Inr lab \<and>
           total acc' + (if lab = UNKNOWN then 1 else 0) = total acc + 1 \<and>
           (lab = UNKNOWN \<longrightarrow> acc' = acc)"
proof -
  from assms(2) obtain x lab where l: "row_label segs r = Inr lab"
    and e: "acc' = \<lparr>S_samples = (if lab = 0 then S_samples acc @ [x] else S_samples acc),
            L_samples = (if lab = 1 then L_samples acc @ [x] else L_samples acc),
            A_samples = (if lab = 2 then A_samples acc @ [x] else A_samples acc),
            P_samples = (if lab = 3 then P_samples acc @ [x] else P_samples acc),
            T_samples = (if lab = 5 then T_samples acc @ [x] else T_samples acc)\<rparr>"
    unfolding new_row_eq [OF assms(1)] by (auto simp: bind_eq_Inr)
  from l have "lab \<in> {START, LEADER, ADAPTER, POLYA, TRANSCRIPT, UNKNOWN}"
    by (auto simp: row_label_def bind_eq_Inr dest: region_search_obj_labels)
  with e have "total acc' + (if lab = UNKNOWN then 1 else 0) = total acc + 1"
    by (auto simp: total_def)
  moreover from e have "lab = UNKNOWN \<longrightarrow> acc' = acc" by simp
  ultimately show ?thesis using l by blast
qed

lemma for_rows_new_total:
  "\<forall>r \<in> set rows. map_of r ''chr'' \<noteq> None \<Longrightarrow>
   for_rows (new_row segs) rows acc = Inr d \<Longrightarrow>
   total d + length (filter (\<lambda>r. row_label segs r = Inr UNKNOWN) rows) = total acc + length rows"
proof (induction rows arbitrary: acc)
  case Nil
  then show ?case by simp
next
  case (Cons r rows)
  from Cons.prems(2) obtain acc' where a: "new_row segs acc r = Inr acc'"
    and l: "for_rows (new_row segs) rows acc' = Inr d"
    by (auto split: sum.splits)
  from Cons.prems(1) have key: "map_of r ''chr'' \<noteq> None"
    and rest: "\<forall>r \<in> set rows. map_of r ''chr'' \<noteq> None" by simp_all
  from new_row_total [OF key a] obtain lab where lab: "row_label segs r = Inr lab"
    and t: "total acc' + (if lab = UNKNOWN then 1 else 0) = total acc + 1" by blast
  from Cons.IH [OF rest l]
  have "total d + length (filter (\<lambda>r. row_label segs r = Inr UNKNOWN) rows) =
        total acc' + length rows" .
  with lab t show ?case by (auto split: if_splits)
qed

lemma new_row_unknown:
  assumes "float_obj (field samples_headers line ''scaled_sample'') = Inr x"
    and "row_label segs (DictReader_row samples_headers line) = Inr UNKNOWN"
  shows "new_row segs acc (DictReader_row samples_headers line) = Inr acc"
proof -
  let ?r = "DictReader_row samples_headers line"
  have c: "''chr'' \<in> set samples_headers" and s: "''scaled_sample'' \<in> set samples_headers"
    by (simp_all add: samples_headers_def)
  from c have key: "map_of ?r ''chr'' \<noteq> None" by (rule DictReader_row_key)
  from s have "getitem ?r ''scaled_sample'' = Inr (field samples_headers line ''scaled_sample'')"
    by (rule getitem_field)
  with assms(1) have "bind (getitem ?r ''scaled_sample'') float_obj = Inr x" by simp
  with assms(2) show ?thesis unfolding new_row_eq [OF key] by simp
qed

text \<open>
  Claim C5. When \<open>new_tsv_to_numpy\<close> returns, the sizes of the five collections and the
  number of rows classified UNKNOWN add up to the number of rows. And whether or not the
  load returns, a row whose sample converts and which is classified UNKNOWN leaves every
  collection as it was and raises nothing.
\<close>

theorem new_tsv_to_numpy_partition:
  "(new_tsv_to_numpy f segs = Inr d \<longrightarrow>
      length (S_samples d) + length (L_samples d) + length (A_samples d) +
      length (P_samples d) + length (T_samples d) +
      length (filter (\<lambda>r. row_label segs r = Inr UNKNOWN) (DictReader samples_headers f))
        = length (DictReader samples_headers f)) \<and>
   (float_obj (field samples_headers line ''scaled_sample'') = Inr x \<and>
    row_label segs (DictReader_row samples_headers line) = Inr UNKNOWN \<longrightarrow>
      new_row segs acc (DictReader_row samples_headers line) = Inr acc)"
proof (intro conjI impI)
  let ?rows = "DictReader samples_headers f"
  let ?init = "\<lparr>S_samples = [], L_samples = [], A_samples = [], P_samples = [], T_samples = []\<rparr>"
  assume "new_tsv_to_numpy f segs = Inr d"
  then have run: "for_rows (new_row segs) ?rows ?init = Inr d"
    by (simp add: new_tsv_to_numpy_def)
  have keys: "\<forall>r \<in> set ?rows. map_of r ''chr'' \<noteq> None"
    using DictReader_key [of _ samples_headers f "''chr''"]
    by (simp add: samples_headers_def)
  from for_rows_new_total [OF keys run]
  have "total d + length (filter (\<lambda>r. row_label segs r = Inr UNKNOWN) ?rows) = length ?rows"
    by (simp add: total_def)
  then show "length (S_samples d) + length (L_samples d) + length (A_samples d) +
         length (P_samples d) + length (T_samples d) +
         length (filter (\<lambda>r. row_label segs r = Inr UNKNOWN) ?rows) = length ?rows"
    by (simp add: total_def)
next
  assume "float_obj (field samples_headers line ''scaled_sample'') = Inr x \<and>
    row_label segs (DictReader_row samples_headers line) = Inr UNKNOWN"
  then show "new_row segs acc (DictReader_row samples_headers line) = Inr acc"
    using new_row_unknown by blast
qed

theorem new_tsv_to_numpy_partition_witness:
  "new_tsv_to_numpy
     [[''polya-samples'', ''r1'', ''chr1'', ''5'', ''100.0'', ''1.5'', ''a'', ''b'', ''c'', ''d'', ''e'', ''f'', ''g''],
      [''polya-samples'', ''zz'', ''chr1'', ''7'', ''101.0'', ''2.5'', ''a'', ''b'', ''c'', ''d'', ''e'', ''f'', ''g''],
      [''polya-samples'', ''r1'', ''chr1'', ''60'', ''102.0'', ''-3'', ''a'', ''b'', ''c'', ''d'', ''e'', ''f'', ''g'']]
     [(''r1'', \<lparr>L_start = 10, A_start = 20, P_start = 30, P_end = 50\<rparr>)]
   = Inr \<lparr>S_samples = [Finite (3 / 2)], L_samples = [], A_samples = [], P_samples = [],
          T_samples = [Finite (- 3)]\<rparr> \<and>
   length [Finite (3 / 2)] + length ([] :: pyfloat list) + length ([] :: pyfloat list) +
   length ([] :: pyfloat list) + length [Finite (- 3)] +
   length (filter (\<lambda>r. row_label [(''r1'', \<lparr>L_start = 10, A_start = 20, P_start = 30, P_end = 50\<rparr>)] r
                          = Inr UNKNOWN)
     (DictReader samples_headers
       [[''polya-samples'', ''r1'', ''chr1'', ''5'', ''100.0'', ''1.5'', ''a'', ''b'', ''c'', ''d'', ''e'', ''f'', ''g''],
        [''polya-samples'', ''zz'', ''chr1'', ''7'', ''101.0'', ''2.5'', ''a'', ''b'', ''c'', ''d'', ''e'', ''f'', ''g''],
        [''polya-samples'', ''r1'', ''chr1'', ''60'', ''102.0'', ''-3'', ''a'', ''b'', ''c'', ''d'', ''e'', ''f'', ''g'']]))
   = 3 \<and>
   new_row [(''r1'', \<lparr>L_start = 10, A_start = 20, P_start = 30, P_end = 50\<rparr>)]
     \<lparr>S_samples = [Finite (3 / 2)], L_samples = [], A_samples = [], P_samples = [], T_samples = []\<rparr>
     (DictReader_row samples_headers
        [''polya-samples'', ''zz'', ''chr1'', ''7'', ''101.0'', ''2.5'', ''a'', ''b'', ''c'', ''d'', ''e'', ''f'', ''g''])
   = Inr \<lparr>S_samples = [Finite (3 / 2)], L_samples = [], A_samples = [], P_samples = [],
          T_samples = []\<rparr>"
proof -
  let ?f = "[[''polya-samples'', ''r1'', ''chr1'', ''5'', ''100.0'', ''1.5'', ''a'', ''b'', ''c'', ''d'', ''e'', ''f'', ''g''],
      [''polya-samples'', ''zz'', ''chr1'', ''7'', ''101.0'', ''2.5'', ''a'', ''b'', ''c'', ''d'', ''e'', ''f'', ''g''],
      [''polya-samples'', ''r1'', ''chr1'', ''60'', ''102.0'', ''-3'', ''a'', ''b'', ''c'', ''d'', ''e'', ''f'', ''g'']]"
  let ?segs = "[(''r1'', \<lparr>L_start = 10, A_start = 20, P_start = 30, P_end = 50\<rparr>)]"
  let ?line = "[''polya-samples'', ''zz'', ''chr1'', ''7'', ''101.0'', ''2.5'', ''a'', ''b'', ''c'', ''d'', ''e'', ''f'', ''g'']"
  let ?d = "\<lparr>S_samples = [Finite (3 / 2)], L_samples = [], A_samples = [], P_samples = [],
          T_samples = [Finite (- 3)]\<rparr>"
  have run: "new_tsv_to_numpy ?f ?segs = Inr ?d"
    by (simp add: new_tsv_to_numpy_def new_row_def region_search_obj_def region_search_def
        load_defs parse_defs)
  have n: "length (DictReader samples_headers ?f) = 3" by (simp add: DictReader_def)
  have x: "float_obj (field samples_headers ?line ''scaled_sample'') = Inr (Finite (5 / 2))"
    by (simp add: field_def load_defs parse_defs)
  have u: "row_label ?segs (DictReader_row samples_headers ?line) = Inr UNKNOWN"
    by (simp add: row_label_def region_search_obj_def region_search_def load_defs parse_defs)
  note t = new_tsv_to_numpy_partition [of ?f ?segs ?d ?line "Finite (5 / 2)"
      "\<lparr>S_samples = [Finite (3 / 2)], L_samples = [], A_samples = [], P_samples = [], T_samples = []\<rparr>"]
  from t run n have a: "length [Finite (3 / 2)] + length ([] :: pyfloat list) +
      length ([] :: pyfloat list) + length ([] :: pyfloat list) + length [Finite (- 3)] +
      length (filter (\<lambda>r. row_label ?segs r = Inr UNKNOWN) (DictReader samples_headers ?f)) = 3"
    by simp
  from t x u have b: "new_row ?segs
     \<lparr>S_samples = [Finite (3 / 2)], L_samples = [], A_samples = [], P_samples = [], T_samples = []\<rparr>
     (DictReader_row samples_headers ?line)
   = Inr \<lparr>S_samples = [Finite (3 / 2)], L_samples = [], A_samples = [], P_samples = [],
          T_samples = []\<rparr>"
    by blast
  from run a b show ?thesis by blast
qed

subsection \<open>Conversion errors\<close>

lemma digits_val_chars:
  "digits_val cs acc = Some n \<Longrightarrow> \<forall>c \<in> set cs. is_digit c \<or> c = CHR ''_''"
  by (induction cs arbitrary: acc) (auto split: if_splits)

lemma digitpart_chars:
  assumes "digitpart u = Some n"
  shows "u \<noteq> [] \<and> is_digit (hd u) \<and> (\<forall>c \<in> set u. is_digit c \<or> c = CHR ''_'')"
  using assms digits_val_chars [of u 0 n]
  by (auto simp: digitpart_def split: if_splits)

lemma is_digit_not_special:
  "is_digit c \<or> c = CHR ''_'' \<Longrightarrow> c \<noteq> CHR ''.'' \<and> c \<noteq> CHR ''e'' \<and> c \<noteq> CHR ''E''"
  by (auto simp: is_digit_def)

lemma lower_digit:
  assumes "is_digit c"
  shows "lower c = c"
proof -
  from assms have "c = CHR ''0'' \<or> c = CHR ''1'' \<or> c = CHR ''2'' \<or> c = CHR ''3'' \<or>
      c = CHR ''4'' \<or> c = CHR ''5'' \<or> c = CHR ''6'' \<or> c = CHR ''7'' \<or> c = CHR ''8'' \<or>
      c = CHR ''9''"
    by (simp add: is_digit_def)
  then show ?thesis by (elim disjE) (simp_all add: lower_def)
qed

lemma digitpart_floatnumber:
  assumes "digitpart u = Some n"
  shows "floatnumber u = Some (real n)"
proof -
  from digitpart_chars [OF assms] have chars: "\<forall>c \<in> set u. is_digit c \<or> c = CHR ''_''" by simp
  then have e: "\<forall>c \<in> set u. c \<noteq> CHR ''e'' \<and> c \<noteq> CHR ''E''"
    and d: "\<forall>c \<in> set u. c \<noteq> CHR ''.''"
    using is_digit_not_special by blast+
  from e have te: "takeWhile (\<lambda>c. c \<noteq> CHR ''e'' \<and> c \<noteq> CHR ''E'') u = u"
    and de: "dropWhile (\<lambda>c. c \<noteq> CHR ''e'' \<and> c \<noteq> CHR ''E'') u = []"
    by (simp_all add: takeWhile_eq_all_conv)
  from d have td: "takeWhile (\<lambda>c. c \<noteq> CHR ''.'') u = u"
    and dd: "dropWhile (\<lambda>c. c \<noteq> CHR ''.'') u = []"
    by (simp_all add: takeWhile_eq_all_conv)
  have "number u = Some (real n)"
    by (simp add: number_def Let_def td dd assms)
  then show ?thesis by (simp add: floatnumber_def Let_def te de)
qed

lemma digitpart_not_word:
  assumes "digitpart u = Some n"
  shows "map lower u \<noteq> ''inf'' \<and> map lower u \<noteq> ''infinity'' \<and> map lower u \<noteq> ''nan''"
proof -
  from digitpart_chars [OF assms] obtain c cs where u: "u = c # cs" and c: "is_digit c"
    by (cases u) auto
  from c have "lower c = c" by (rule lower_digit)
  moreover from c have "c \<noteq> CHR ''i'' \<and> c \<noteq> CHR ''n''" by (auto simp: is_digit_def)
  ultimately show ?thesis using u by auto
qed

lemma py_int_py_float:
  assumes "py_int s = Some n"
  shows "py_float s \<noteq> None"
proof -
  obtain sg u where su: "split_sign (py_strip s) = (sg, u)" by (cases "split_sign (py_strip s)")
  with assms obtain m where m: "digitpart u = Some m"
    by (auto simp: py_int_def)
  from digitpart_floatnumber [OF m] digitpart_not_word [OF m] su
  show ?thesis by (simp add: py_float_def)
qed

lemma non_numeric_float: "non_numeric v \<Longrightarrow> float_obj v = Inl ValueError"
  by (auto simp: non_numeric_def float_obj_def split: option.splits)

lemma non_numeric_int: "non_numeric v \<Longrightarrow> int_obj v = Inl ValueError"
proof -
  assume "non_numeric v"
  then obtain s where v: "v = Some s" and f: "py_float s = None"
    by (auto simp: non_numeric_def split: option.splits)
  from f have "py_int s = None" using py_int_py_float by (cases "py_int s") auto
  with v show ?thesis by (simp add: int_obj_def)
qed

lemma for_rows_append:
  "for_rows body (xs @ ys) s = bind (for_rows body xs s) (for_rows body ys)"
  by (induction xs arbitrary: s) (auto split: sum.splits)

lemma for_rows_failing_row:
  assumes "\<And>s1. for_rows body xs s = Inr s1 \<Longrightarrow> \<exists>e. body s1 r = Inl e"
  shows "(\<exists>e. for_rows body (xs @ r # ys) s = Inl e) \<and>
         for_rows body (xs @ r # ys) s = for_rows body (xs @ [r]) s"
proof (cases "for_rows body xs s")
  case (Inl e)
  then show ?thesis by (simp add: for_rows_append)
next
  case (Inr s1)
  with assms obtain e where "body s1 r = Inl e" by blast
  with Inr show ?thesis by (simp add: for_rows_append)
qed

lemma DictReader_append:
  "line \<noteq> [] \<Longrightarrow>
   DictReader hs (before @ line # after) =
     DictReader hs before @ DictReader_row hs line # DictReader hs after"
  by (simp add: DictReader_def)

lemma non_numeric_nonempty: "non_numeric (field hs line k) \<Longrightarrow> line \<noteq> []"
proof (rule ccontr)
  assume n: "non_numeric (field hs line k)" and "\<not> line \<noteq> []"
  then have e: "line = []" by simp
  have "map_of (DictReader_row hs []) k = None \<or> map_of (DictReader_row hs []) k = Some None"
    by (induction hs) auto
  with n e show False by (auto simp: field_def non_numeric_def)
qed

lemma read_id_of_field: "read_id_of (DictReader_row hs line) = field hs line ''read_id''"
  by (simp add: read_id_of_def field_def)

lemma old_row_fails:
  assumes "k \<in> set [''s_llh'', ''l_llh'', ''a_llh'', ''p_llh'', ''t_llh'']"
    and "non_numeric (field samples_headers line k)"
  shows "\<exists>e. old_row acc (DictReader_row samples_headers line) = Inl e"
proof -
  have g: "getitem (DictReader_row samples_headers line) k' = Inr (field samples_headers line k')"
    if "k' \<in> set samples_headers" for k'
    using that by (rule getitem_field)
  have m: "''s_llh'' \<in> set samples_headers" "''l_llh'' \<in> set samples_headers"
    "''a_llh'' \<in> set samples_headers" "''p_llh'' \<in> set samples_headers"
    "''t_llh'' \<in> set samples_headers" "''region'' \<in> set samples_headers"
    by (simp_all add: samples_headers_def)
  from assms(2) have f: "float_obj (field samples_headers line k) = Inl ValueError"
    by (rule non_numeric_float)
  from assms(1) consider "k = ''s_llh''" | "k = ''l_llh''" | "k = ''a_llh''" | "k = ''p_llh''"
    | "k = ''t_llh''" by auto
  then show ?thesis
  proof cases
    case 1
    with f show ?thesis by (simp add: old_row_def g m)
  next
    case 2
    with f show ?thesis
      by (cases "float_obj (field samples_headers line ''s_llh'')") (simp_all add: old_row_def g m)
  next
    case 3
    with f show ?thesis
      by (cases "float_obj (field samples_headers line ''s_llh'')";
          cases "float_obj (field samples_headers line ''l_llh'')")
         (simp_all add: old_row_def g m)
  next
    case 4
    with f show ?thesis
      by (cases "float_obj (field samples_headers line ''s_llh'')";
          cases "float_obj (field samples_headers line ''l_llh'')";
          cases "float_obj (field samples_headers line ''a_llh'')")
         (simp_all add: old_row_def g m)
  next
    case 5
    with f show ?thesis
      by (cases "float_obj (field samples_headers line ''s_llh'')";
          cases "float_obj (field samples_headers line ''l_llh'')";
          cases "float_obj (field samples_headers line ''a_llh'')";
          cases "float_obj (field samples_headers line ''p_llh'')")
         (simp_all add: old_row_def g m)
  qed
qed

lemma new_row_fails:
  assumes "k \<in> set [''scaled_sample'', ''idx'']"
    and "non_numeric (field samples_headers line k)"
  shows "\<exists>e. new_row segs acc (DictReader_row samples_headers line) = Inl e"
proof -
  have g: "getitem (DictReader_row samples_headers line) k' = Inr (field samples_headers line k')"
    if "k' \<in> set samples_headers" for k'
    using that by (rule getitem_field)
  have m: "''scaled_sample'' \<in> set samples_headers" "''read_id'' \<in> set samples_headers"
    "''chr'' \<in> set samples_headers" "''idx'' \<in> set samples_headers"
    by (simp_all add: samples_headers_def)
  from assms(1) consider "k = ''scaled_sample''" | "k = ''idx''" by auto
  then show ?thesis
  proof cases
    case 1
    with assms(2) have "float_obj (field samples_headers line ''scaled_sample'') = Inl ValueError"
      by (simp add: non_numeric_float)
    then show ?thesis by (simp add: new_row_def g m)
  next
    case 2
    with assms(2) have "int_obj (field samples_headers line ''idx'') = Inl ValueError"
      by (simp add: non_numeric_int)
    then show ?thesis
      by (cases "float_obj (field samples_headers line ''scaled_sample'')")
         (simp_all add: new_row_def g m)
  qed
qed

lemma boundaries_of_fails:
  assumes "k \<in> set [''L_start'', ''A_start'', ''P_start'', ''P_end'']"
    and "non_numeric (field segmentation_headers line k)"
  shows "\<exists>e. boundaries_of (DictReader_row segmentation_headers line) = Inl e"
proof -
  have g: "getitem (DictReader_row segmentation_headers line) k' =
           Inr (field segmentation_headers line k')"
    if "k' \<in> set segmentation_headers" for k'
    using that by (rule getitem_field)
  have m: "''L_start'' \<in> set segmentation_headers" "''A_start'' \<in> set segmentation_headers"
    "''P_start'' \<in> set segmentation_headers" "''P_end'' \<in> set segmentation_headers"
    by (simp_all add: segmentation_headers_def)
  from assms(2) have f: "float_obj (field segmentation_headers line k) = Inl ValueError"
    by (rule non_numeric_float)
  from assms(1) consider "k = ''L_start''" | "k = ''A_start''" | "k = ''P_start''" | "k = ''P_end''"
    by auto
  then show ?thesis
  proof cases
    case 1
    with f show ?thesis by (simp add: boundaries_of_def g m)
  next
    case 2
    with f show ?thesis
      by (cases "bind (float_obj (field segmentation_headers line ''L_start'')) int_of_float")
         (simp_all add: boundaries_of_def g m)
  next
    case 3
    with f show ?thesis
      by (cases "bind (float_obj (field segmentation_headers line ''L_start'')) int_of_float";
          cases "bind (float_obj (field segmentation_headers line ''A_start'')) int_of_float")
         (simp_all add: boundaries_of_def g m)
  next
    case 4
    with f show ?thesis
      by (cases "bind (float_obj (field segmentation_headers line ''L_start'')) int_of_float";
          cases "bind (float_obj (field segmentation_headers line ''A_start'')) int_of_float";
          cases "bind (float_obj (field segmentation_headers line ''P_start'')) int_of_float")
         (simp_all add: boundaries_of_def g m)
  qed
qed

lemma for_rows_aborts_at:
  assumes "line \<noteq> []"
    and "\<And>s1. for_rows body (DictReader hs before) s = Inr s1 \<Longrightarrow>
              \<exists>e. body s1 (DictReader_row hs line) = Inl e"
  shows "aborts_at (\<lambda>f. for_rows body (DictReader hs f) s) before line after"
proof -
  have e1: "DictReader hs (before @ line # after) =
            DictReader hs before @ DictReader_row hs line # DictReader hs after"
    using assms(1) by (rule DictReader_append)
  have e2: "DictReader hs (before @ [line]) = DictReader hs before @ [DictReader_row hs line]"
    using assms(1) by (simp add: DictReader_def)
  have "(\<exists>e. for_rows body (DictReader hs before @ DictReader_row hs line # DictReader hs after) s
            = Inl e) \<and>
        for_rows body (DictReader hs before @ DictReader_row hs line # DictReader hs after) s =
        for_rows body (DictReader hs before @ [DictReader_row hs line]) s"
    using assms(2) by (rule for_rows_failing_row)
  then show ?thesis unfolding aborts_at_def e1 e2 .
qed

lemma old_tsv_aborts:
  assumes "k \<in> set [''s_llh'', ''l_llh'', ''a_llh'', ''p_llh'', ''t_llh'']"
    and "non_numeric (field samples_headers line k)"
  shows "aborts_at old_tsv_to_numpy before line after"
proof -
  let ?init = "\<lparr>S_loglkhd = [], L_loglkhd = [], A_loglkhd = [], P_loglkhd = [], T_loglkhd = []\<rparr>"
  from assms(2) have ne: "line \<noteq> []" by (rule non_numeric_nonempty)
  have "\<exists>e. old_row s1 (DictReader_row samples_headers line) = Inl e" for s1
    using assms by (rule old_row_fails)
  with ne have "aborts_at (\<lambda>f. for_rows old_row (DictReader samples_headers f) ?init)
                  before line after"
    by (rule for_rows_aborts_at)
  then show ?thesis unfolding aborts_at_def old_tsv_to_numpy_def .
qed

lemma new_tsv_aborts:
  assumes "k \<in> set [''scaled_sample'', ''idx'']"
    and "non_numeric (field samples_headers line k)"
  shows "aborts_at (\<lambda>f. new_tsv_to_numpy f segs) before line after"
proof -
  let ?init = "\<lparr>S_samples = [], L_samples = [], A_samples = [], P_samples = [], T_samples = []\<rparr>"
  from assms(2) have ne: "line \<noteq> []" by (rule non_numeric_nonempty)
  have "\<exists>e. new_row segs s1 (DictReader_row samples_headers line) = Inl e" for s1
    using assms by (rule new_row_fails)
  with ne have "aborts_at (\<lambda>f. for_rows (new_row segs) (DictReader samples_headers f) ?init)
                  before line after"
    by (rule for_rows_aborts_at)
  then show ?thesis unfolding aborts_at_def new_tsv_to_numpy_def .
qed

lemma segmentation_row_fails:
  assumes "k \<in> set [''L_start'', ''A_start'', ''P_start'', ''P_end'']"
    and "non_numeric (field segmentation_headers line k)"
    and "field segmentation_headers line ''read_id'' \<notin>
           set (map (\<lambda>l. field segmentation_headers l ''read_id'') before)"
    and "for_rows segmentation_row (DictReader segmentation_headers before) [] = Inr s1"
  shows "\<exists>e. segmentation_row s1 (DictReader_row segmentation_headers line) = Inl e"
proof -
  let ?r = "DictReader_row segmentation_headers line"
  have hk: "''read_id'' \<in> set segmentation_headers" by (simp add: segmentation_headers_def)
  have key: "map_of ?r ''read_id'' \<noteq> None" using hk by (rule DictReader_row_key)
  have keys: "\<forall>r \<in> set (DictReader segmentation_headers before). map_of r ''read_id'' \<noteq> None"
    using DictReader_key [of _ segmentation_headers before "''read_id''"] hk by blast
  have d: "distinct (map fst ([] :: segmentations))" by simp
  from for_rows_keys [OF keys assms(4) d]
  have ks: "set (map fst s1) =
            {k. \<exists>r \<in> set (DictReader segmentation_headers before). read_id_of r = Some k}"
    by simp
  from assms(1,2) obtain e where b: "boundaries_of ?r = Inl e"
    using boundaries_of_fails by blast
  show ?thesis
  proof (cases "read_id_of ?r")
    case None
    then show ?thesis by (simp add: segmentation_row_eq [OF key])
  next
    case (Some k')
    have "k' \<notin> set (map fst s1)"
    proof
      assume "k' \<in> set (map fst s1)"
      with ks obtain r where r: "r \<in> set (DictReader segmentation_headers before)"
        and i: "read_id_of r = Some k'" by blast
      from r obtain l where l: "l \<in> set before" and "r = DictReader_row segmentation_headers l"
        by (auto simp: DictReader_def)
      with i have "field segmentation_headers l ''read_id'' = Some k'"
        by (simp add: read_id_of_field)
      moreover from Some have "field segmentation_headers line ''read_id'' = Some k'"
        by (simp add: read_id_of_field)
      ultimately show False using assms(3) l by force
    qed
    with Some b show ?thesis by (simp add: segmentation_row_eq [OF key])
  qed
qed

lemma make_segmentation_dict_aborts:
  assumes "k \<in> set [''L_start'', ''A_start'', ''P_start'', ''P_end'']"
    and "non_numeric (field segmentation_headers line k)"
    and "field segmentation_headers line ''read_id'' \<notin>
           set (map (\<lambda>l. field segmentation_headers l ''read_id'') before)"
  shows "aborts_at make_segmentation_dict before line after"
proof -
  from assms(2) have ne: "line \<noteq> []" by (rule non_numeric_nonempty)
  have "\<exists>e. segmentation_row s1 (DictReader_row segmentation_headers line) = Inl e"
    if "for_rows segmentation_row (DictReader segmentation_headers before) [] = Inr s1" for s1
    using assms that by (rule segmentation_row_fails)
  with ne have "aborts_at (\<lambda>f. for_rows segmentation_row (DictReader segmentation_headers f) [])
                  before line after"
    by (rule for_rows_aborts_at)
  then show ?thesis unfolding aborts_at_def make_segmentation_dict_def .
qed

lemma for_rows_DictReader_cong:
  assumes "list_all2 (\<lambda>l l'. (l = [] \<longleftrightarrow> l' = []) \<and>
             (\<forall>s. body s (DictReader_row hs l) = body s (DictReader_row hs l'))) f f'"
  shows "for_rows body (DictReader hs f) s = for_rows body (DictReader hs f') s"
  using assms
proof (induction f f' arbitrary: s rule: list_all2_induct)
  case Nil
  show ?case by (simp add: DictReader_def)
next
  case (Cons l f l' f')
  show ?case
  proof (cases "l = []")
    case True
    with Cons.hyps(1) have "l' = []" by simp
    with True Cons.IH [of s] show ?thesis by (simp add: DictReader_def)
  next
    case False
    with Cons.hyps(1) have ne: "l' \<noteq> []" by simp
    from Cons.hyps(1) have step: "body s (DictReader_row hs l) = body s (DictReader_row hs l')"
      by simp
    have "for_rows body (DictReader hs f) s1 = for_rows body (DictReader hs f') s1" for s1
      by (rule Cons.IH)
    with False ne step show ?thesis
      by (simp add: DictReader_def split: sum.splits)
  qed
qed

lemma old_row_same:
  assumes "same_on samples_headers [''s_llh'', ''l_llh'', ''a_llh'', ''p_llh'', ''t_llh'', ''region''] l l'"
  shows "old_row s (DictReader_row samples_headers l) = old_row s (DictReader_row samples_headers l')"
proof -
  have g: "getitem (DictReader_row samples_headers x) k = Inr (field samples_headers x k)"
    if "k \<in> set samples_headers" for k x
    using that by (rule getitem_field)
  have m: "''s_llh'' \<in> set samples_headers" "''l_llh'' \<in> set samples_headers"
    "''a_llh'' \<in> set samples_headers" "''p_llh'' \<in> set samples_headers"
    "''t_llh'' \<in> set samples_headers" "''region'' \<in> set samples_headers"
    by (simp_all add: samples_headers_def)
  from assms have e: "field samples_headers l ''s_llh'' = field samples_headers l' ''s_llh''"
    "field samples_headers l ''l_llh'' = field samples_headers l' ''l_llh''"
    "field samples_headers l ''a_llh'' = field samples_headers l' ''a_llh''"
    "field samples_headers l ''p_llh'' = field samples_headers l' ''p_llh''"
    "field samples_headers l ''t_llh'' = field samples_headers l' ''t_llh''"
    "field samples_headers l ''region'' = field samples_headers l' ''region''"
    by (simp_all add: same_on_def)
  show ?thesis by (simp only: old_row_def g [OF m(1)] g [OF m(2)] g [OF m(3)] g [OF m(4)]
        g [OF m(5)] g [OF m(6)] e)
qed

lemma new_row_same:
  assumes "same_on samples_headers [''scaled_sample'', ''read_id'', ''idx''] l l'"
  shows "new_row segs s (DictReader_row samples_headers l) =
         new_row segs s (DictReader_row samples_headers l')"
proof -
  have g: "getitem (DictReader_row samples_headers x) k = Inr (field samples_headers x k)"
    if "k \<in> set samples_headers" for k x
    using that by (rule getitem_field)
  have m: "''scaled_sample'' \<in> set samples_headers" "''read_id'' \<in> set samples_headers"
    "''chr'' \<in> set samples_headers" "''idx'' \<in> set samples_headers"
    by (simp_all add: samples_headers_def)
  from assms have e:
    "field samples_headers l ''scaled_sample'' = field samples_headers l' ''scaled_sample''"
    "field samples_headers l ''read_id'' = field samples_headers l' ''read_id''"
    "field samples_headers l ''idx'' = field samples_headers l' ''idx''"
    by (simp_all add: same_on_def)
  show ?thesis
    by (simp only: new_row_def g [OF m(1)] g [OF m(2)] g [OF m(3)] g [OF m(4)] e bind_Inr)
qed

lemma segmentation_row_same:
  assumes "same_on segmentation_headers
             [''read_id'', ''L_start'', ''A_start'', ''P_start'', ''P_end''] l l'"
  shows "segmentation_row s (DictReader_row segmentation_headers l) =
         segmentation_row s (DictReader_row segmentation_headers l')"
proof -
  have g: "getitem (DictReader_row segmentation_headers x) k = Inr (field segmentation_headers x k)"
    if "k \<in> set segmentation_headers" for k x
    using that by (rule getitem_field)
  have m: "''read_id'' \<in> set segmentation_headers" "''L_start'' \<in> set segmentation_headers"
    "''A_start'' \<in> set segmentation_headers" "''P_start'' \<in> set segmentation_headers"
    "''P_end'' \<in> set segmentation_headers"
    by (simp_all add: segmentation_headers_def)
  from assms have e:
    "field segmentation_headers l ''read_id'' = field segmentation_headers l' ''read_id''"
    "field segmentation_headers l ''L_start'' = field segmentation_headers l' ''L_start''"
    "field segmentation_headers l ''A_start'' = field segmentation_headers l' ''A_start''"
    "field segmentation_headers l ''P_start'' = field segmentation_headers l' ''P_start''"
    "field segmentation_headers l ''P_end'' = field segmentation_headers l' ''P_end''"
    by (simp_all add: same_on_def)
  show ?thesis
    by (simp only: segmentation_row_def g [OF m(1)] g [OF m(2)] g [OF m(3)] g [OF m(4)]
        g [OF m(5)] e)
qed

lemma same_on_blank: "same_on hs keys l l' \<Longrightarrow> (l = [] \<longleftrightarrow> l' = [])"
  by (simp add: same_on_def)

lemma old_tsv_reads_only:
  assumes "list_all2 (same_on samples_headers
             [''s_llh'', ''l_llh'', ''a_llh'', ''p_llh'', ''t_llh'', ''region'']) f f'"
  shows "old_tsv_to_numpy f = old_tsv_to_numpy f'"
proof -
  from assms have "list_all2 (\<lambda>l l'. (l = [] \<longleftrightarrow> l' = []) \<and>
      (\<forall>s. old_row s (DictReader_row samples_headers l) =
           old_row s (DictReader_row samples_headers l'))) f f'"
    by (rule list_all2_mono) (simp add: same_on_blank old_row_same)
  then show ?thesis unfolding old_tsv_to_numpy_def by (rule for_rows_DictReader_cong)
qed

lemma new_tsv_reads_only:
  assumes "list_all2 (same_on samples_headers [''scaled_sample'', ''read_id'', ''idx'']) f f'"
  shows "new_tsv_to_numpy f segs = new_tsv_to_numpy f' segs"
proof -
  from assms have "list_all2 (\<lambda>l l'. (l = [] \<longleftrightarrow> l' = []) \<and>
      (\<forall>s. new_row segs s (DictReader_row samples_headers l) =
           new_row segs s (DictReader_row samples_headers l'))) f f'"
    by (rule list_all2_mono) (simp add: same_on_blank new_row_same)
  then show ?thesis unfolding new_tsv_to_numpy_def by (rule for_rows_DictReader_cong)
qed

lemma make_segmentation_dict_reads_only:
  assumes "list_all2 (same_on segmentation_headers
             [''read_id'', ''L_start'', ''A_start'', ''P_start'', ''P_end'']) f f'"
  shows "make_segmentation_dict f = make_segmentation_dict f'"
proof -
  from assms have "list_all2 (\<lambda>l l'. (l = [] \<longleftrightarrow> l' = []) \<and>
      (\<forall>s. segmentation_row s (DictReader_row segmentation_headers l) =
           segmentation_row s (DictReader_row segmentation_headers l'))) f f'"
    by (rule list_all2_mono) (simp add: same_on_blank segmentation_row_same)
  then show ?thesis unfolding make_segmentation_dict_def by (rule for_rows_DictReader_cong)
qed

lemma make_segmentation_dict_first_seen:
  "make_segmentation_dict f =
   for_rows segmentation_row (first_seen [] (DictReader segmentation_headers f)) []"
proof -
  have keys: "\<forall>r \<in> set (DictReader segmentation_headers f). map_of r ''read_id'' \<noteq> None"
    using DictReader_key [of _ segmentation_headers f "''read_id''"]
    by (simp add: segmentation_headers_def)
  have "for_rows segmentation_row
          (first_seen (map fst ([] :: segmentations)) (DictReader segmentation_headers f)) [] =
        for_rows segmentation_row (DictReader segmentation_headers f) []"
    using keys by (rule for_rows_first_seen)
  then show ?thesis by (simp add: make_segmentation_dict_def)
qed

text \<open>
  Claim C8, as amended. A non-numeric value in a field that a loader converts makes the
  load fail, and no line after it is processed: \<open>s_llh\<close>, \<open>l_llh\<close>, \<open>a_llh\<close>, \<open>p_llh\<close>
  and \<open>t_llh\<close> for \<open>old_tsv_to_numpy\<close>; \<open>scaled_sample\<close> and \<open>idx\<close> for
  \<open>new_tsv_to_numpy\<close>; the four boundaries for \<open>make_segmentation_dict\<close>, in a line
  whose read identifier has not occurred before. No other field is converted: the result
  of a loader, error or not, is the same for two files whose lines agree in the fields
  it converts and in \<open>region\<close> or \<open>read_id\<close>, whatever the other fields hold; and
  \<open>make_segmentation_dict\<close> gives the result of loading only the lines that are the
  first with their read identifier.
\<close>

theorem converted_field_aborts:
  "((\<exists>k \<in> set [''s_llh'', ''l_llh'', ''a_llh'', ''p_llh'', ''t_llh''].
       non_numeric (field samples_headers line k)) \<longrightarrow>
      aborts_at old_tsv_to_numpy before line after) \<and>
   ((\<exists>k \<in> set [''scaled_sample'', ''idx'']. non_numeric (field samples_headers line k)) \<longrightarrow>
      aborts_at (\<lambda>f. new_tsv_to_numpy f segs) before line after) \<and>
   ((\<exists>k \<in> set [''L_start'', ''A_start'', ''P_start'', ''P_end''].
       non_numeric (field segmentation_headers line k)) \<and>
    field segmentation_headers line ''read_id'' \<notin>
      set (map (\<lambda>l. field segmentation_headers l ''read_id'') before) \<longrightarrow>
      aborts_at make_segmentation_dict before line after) \<and>
   (list_all2 (same_on samples_headers
        [''s_llh'', ''l_llh'', ''a_llh'', ''p_llh'', ''t_llh'', ''region'']) f f' \<longrightarrow>
      old_tsv_to_numpy f = old_tsv_to_numpy f') \<and>
   (list_all2 (same_on samples_headers [''scaled_sample'', ''read_id'', ''idx'']) f f' \<longrightarrow>
      new_tsv_to_numpy f segs = new_tsv_to_numpy f' segs) \<and>
   (list_all2 (same_on segmentation_headers
        [''read_id'', ''L_start'', ''A_start'', ''P_start'', ''P_end'']) f f' \<longrightarrow>
      make_segmentation_dict f = make_segmentation_dict f') \<and>
   make_segmentation_dict f =
     for_rows segmentation_row (first_seen [] (DictReader segmentation_headers f)) []"
  using old_tsv_aborts [of _ line before after] new_tsv_aborts [of _ line segs before after]
    make_segmentation_dict_aborts [of _ line before after]
    old_tsv_reads_only [of f f'] new_tsv_reads_only [of f f' segs]
    make_segmentation_dict_reads_only [of f f'] make_segmentation_dict_first_seen [of f]
  by blast

theorem converted_field_aborts_witness:
  "aborts_at old_tsv_to_numpy []
     [''polya-samples'', ''r1'', ''chr1'', ''5'', ''100.0'', ''1.5'', ''-1.0'', ''abc'', ''-3.0'',
      ''-4.0'', ''-5.0'', ''-6.0'', ''START'']
     [[''polya-samples'', ''r1'', ''chr1'', ''6'', ''100.0'', ''1.5'', ''-1.0'', ''-2.0'', ''-3.0'',
       ''-4.0'', ''-5.0'', ''-6.0'', ''START'']] \<and>
   aborts_at (\<lambda>f. new_tsv_to_numpy f [(''r1'', \<lparr>L_start = 10, A_start = 20, P_start = 30, P_end = 50\<rparr>)])
     [[''polya-samples'', ''r1'', ''chr1'', ''5'', ''100.0'', ''1.5'', ''-1.0'', ''-2.0'', ''-3.0'',
       ''-4.0'', ''-5.0'', ''-6.0'', ''START'']]
     [''polya-samples'', ''r1'', ''chr1'', ''six'', ''100.0'', ''1.5'', ''-1.0'', ''-2.0'', ''-3.0'',
      ''-4.0'', ''-5.0'', ''-6.0'', ''START'']
     [] \<and>
   aborts_at make_segmentation_dict
     [[''polya-segmentation'', ''r1'', ''161684804'', ''47.0'', ''1851.0'', ''8354.0'',
       ''11424.0'', ''73.76'', ''75.18'', ''35.23'']]
     [''polya-segmentation'', ''r2'', ''5'', ''1.0'', ''2.0'', ''3.0'', ''4.0x'', ''1'', ''2'', ''3'']
     [[''polya-segmentation'', ''r3'', ''5'', ''1.0'', ''2.0'', ''3.0'', ''4.0'', ''1'', ''2'', ''3'']] \<and>
   old_tsv_to_numpy
     [[''polya-samples'', ''r1'', ''chr1'', ''5'', ''100.0'', ''1.5'', ''-1.0'', ''-2.0'', ''-3.0'',
       ''-4.0'', ''-5.0'', ''-6.0'', ''START'']] =
   old_tsv_to_numpy
     [[''x'', ''r2'', ''chr2'', ''five'', ''abc'', ''abc'', ''-1.0'', ''-2.0'', ''-3.0'',
       ''-4.0'', ''abc'', ''-6.0'', ''START'']] \<and>
   new_tsv_to_numpy
     [[''polya-samples'', ''r1'', ''chr1'', ''5'', ''100.0'', ''1.5'', ''-1.0'', ''-2.0'', ''-3.0'',
       ''-4.0'', ''-5.0'', ''-6.0'', ''START'']]
     [(''r1'', \<lparr>L_start = 10, A_start = 20, P_start = 30, P_end = 50\<rparr>)] =
   new_tsv_to_numpy
     [[''x'', ''r1'', ''chr2'', ''5'', ''abc'', ''1.5'', ''abc'', ''abc'', ''abc'',
       ''abc'', ''abc'', ''abc'', ''LEADER'']]
     [(''r1'', \<lparr>L_start = 10, A_start = 20, P_start = 30, P_end = 50\<rparr>)] \<and>
   make_segmentation_dict
     [[''polya-segmentation'', ''r1'', ''161684804'', ''47.0'', ''1851.0'', ''8354.0'',
       ''11424.0'', ''73.76'', ''75.18'', ''35.23'']] =
   make_segmentation_dict
     [[''x'', ''r1'', ''abc'', ''47.0'', ''1851.0'', ''8354.0'', ''11424.0'', ''abc'', ''abc'',
       ''abc'']]"
proof -
  have a: "non_numeric (field samples_headers
     [''polya-samples'', ''r1'', ''chr1'', ''5'', ''100.0'', ''1.5'', ''-1.0'', ''abc'', ''-3.0'',
      ''-4.0'', ''-5.0'', ''-6.0'', ''START''] ''l_llh'')"
    by (simp add: non_numeric_def field_def samples_headers_def parse_defs)
  have b: "non_numeric (field samples_headers
     [''polya-samples'', ''r1'', ''chr1'', ''six'', ''100.0'', ''1.5'', ''-1.0'', ''-2.0'', ''-3.0'',
      ''-4.0'', ''-5.0'', ''-6.0'', ''START''] ''idx'')"
    by (simp add: non_numeric_def field_def samples_headers_def parse_defs)
  have c: "non_numeric (field segmentation_headers
     [''polya-segmentation'', ''r2'', ''5'', ''1.0'', ''2.0'', ''3.0'', ''4.0x'', ''1'', ''2'', ''3'']
     ''P_end'')"
    by (simp add: non_numeric_def field_def segmentation_headers_def parse_defs)
  have d: "field segmentation_headers
     [''polya-segmentation'', ''r2'', ''5'', ''1.0'', ''2.0'', ''3.0'', ''4.0x'', ''1'', ''2'', ''3'']
     ''read_id'' \<notin> set (map (\<lambda>l. field segmentation_headers l ''read_id'')
       [[''polya-segmentation'', ''r1'', ''161684804'', ''47.0'', ''1851.0'', ''8354.0'',
         ''11424.0'', ''73.76'', ''75.18'', ''35.23'']])"
    by (simp add: field_def segmentation_headers_def)
  from a have a': "\<exists>k \<in> set [''s_llh'', ''l_llh'', ''a_llh'', ''p_llh'', ''t_llh''].
      non_numeric (field samples_headers
     [''polya-samples'', ''r1'', ''chr1'', ''5'', ''100.0'', ''1.5'', ''-1.0'', ''abc'', ''-3.0'',
      ''-4.0'', ''-5.0'', ''-6.0'', ''START''] k)" by simp
  from b have b': "\<exists>k \<in> set [''scaled_sample'', ''idx''].
      non_numeric (field samples_headers
     [''polya-samples'', ''r1'', ''chr1'', ''six'', ''100.0'', ''1.5'', ''-1.0'', ''-2.0'', ''-3.0'',
      ''-4.0'', ''-5.0'', ''-6.0'', ''START''] k)" by simp
  from c have c': "\<exists>k \<in> set [''L_start'', ''A_start'', ''P_start'', ''P_end''].
      non_numeric (field segmentation_headers
     [''polya-segmentation'', ''r2'', ''5'', ''1.0'', ''2.0'', ''3.0'', ''4.0x'', ''1'', ''2'', ''3'']
     k)" by simp
  from a' converted_field_aborts
  have 1: "aborts_at old_tsv_to_numpy []
     [''polya-samples'', ''r1'', ''chr1'', ''5'', ''100.0'', ''1.5'', ''-1.0'', ''abc'', ''-3.0'',
      ''-4.0'', ''-5.0'', ''-6.0'', ''START'']
     [[''polya-samples'', ''r1'', ''chr1'', ''6'', ''100.0'', ''1.5'', ''-1.0'', ''-2.0'', ''-3.0'',
       ''-4.0'', ''-5.0'', ''-6.0'', ''START'']]"
    by blast
  from b' converted_field_aborts
  have 2: "aborts_at (\<lambda>f. new_tsv_to_numpy f [(''r1'', \<lparr>L_start = 10, A_start = 20, P_start = 30, P_end = 50\<rparr>)])
     [[''polya-samples'', ''r1'', ''chr1'', ''5'', ''100.0'', ''1.5'', ''-1.0'', ''-2.0'', ''-3.0'',
       ''-4.0'', ''-5.0'', ''-6.0'', ''START'']]
     [''polya-samples'', ''r1'', ''chr1'', ''six'', ''100.0'', ''1.5'', ''-1.0'', ''-2.0'', ''-3.0'',
      ''-4.0'', ''-5.0'', ''-6.0'', ''START'']
     []"
    by blast
  from c' d converted_field_aborts
  have 3: "aborts_at make_segmentation_dict
     [[''polya-segmentation'', ''r1'', ''161684804'', ''47.0'', ''1851.0'', ''8354.0'',
       ''11424.0'', ''73.76'', ''75.18'', ''35.23'']]
     [''polya-segmentation'', ''r2'', ''5'', ''1.0'', ''2.0'', ''3.0'', ''4.0x'', ''1'', ''2'', ''3'']
     [[''polya-segmentation'', ''r3'', ''5'', ''1.0'', ''2.0'', ''3.0'', ''4.0'', ''1'', ''2'', ''3'']]"
    by blast
  have o: "list_all2 (same_on samples_headers
       [''s_llh'', ''l_llh'', ''a_llh'', ''p_llh'', ''t_llh'', ''region''])
     [[''polya-samples'', ''r1'', ''chr1'', ''5'', ''100.0'', ''1.5'', ''-1.0'', ''-2.0'', ''-3.0'',
       ''-4.0'', ''-5.0'', ''-6.0'', ''START'']]
     [[''x'', ''r2'', ''chr2'', ''five'', ''abc'', ''abc'', ''-1.0'', ''-2.0'', ''-3.0'',
       ''-4.0'', ''abc'', ''-6.0'', ''START'']]"
    by (simp add: same_on_def field_def samples_headers_def)
  have n: "list_all2 (same_on samples_headers [''scaled_sample'', ''read_id'', ''idx''])
     [[''polya-samples'', ''r1'', ''chr1'', ''5'', ''100.0'', ''1.5'', ''-1.0'', ''-2.0'', ''-3.0'',
       ''-4.0'', ''-5.0'', ''-6.0'', ''START'']]
     [[''x'', ''r1'', ''chr2'', ''5'', ''abc'', ''1.5'', ''abc'', ''abc'', ''abc'',
       ''abc'', ''abc'', ''abc'', ''LEADER'']]"
    by (simp add: same_on_def field_def samples_headers_def)
  have s: "list_all2 (same_on segmentation_headers
       [''read_id'', ''L_start'', ''A_start'', ''P_start'', ''P_end''])
     [[''polya-segmentation'', ''r1'', ''161684804'', ''47.0'', ''1851.0'', ''8354.0'',
       ''11424.0'', ''73.76'', ''75.18'', ''35.23'']]
     [[''x'', ''r1'', ''abc'', ''47.0'', ''1851.0'', ''8354.0'', ''11424.0'', ''abc'', ''abc'',
       ''abc'']]"
    by (simp add: same_on_def field_def segmentation_headers_def)
  from o converted_field_aborts
  have 4: "old_tsv_to_numpy
     [[''polya-samples'', ''r1'', ''chr1'', ''5'', ''100.0'', ''1.5'', ''-1.0'', ''-2.0'', ''-3.0'',
       ''-4.0'', ''-5.0'', ''-6.0'', ''START'']] =
   old_tsv_to_numpy
     [[''x'', ''r2'', ''chr2'', ''five'', ''abc'', ''abc'', ''-1.0'', ''-2.0'', ''-3.0'',
       ''-4.0'', ''abc'', ''-6.0'', ''START'']]"
    by blast
  from n converted_field_aborts
  have 5: "new_tsv_to_numpy
     [[''polya-samples'', ''r1'', ''chr1'', ''5'', ''100.0'', ''1.5'', ''-1.0'', ''-2.0'', ''-3.0'',
       ''-4.0'', ''-5.0'', ''-6.0'', ''START'']]
     [(''r1'', \<lparr>L_start = 10, A_start = 20, P_start = 30, P_end = 50\<rparr>)] =
   new_tsv_to_numpy
     [[''x'', ''r1'', ''chr2'', ''5'', ''abc'', ''1.5'', ''abc'', ''abc'', ''abc'',
       ''abc'', ''abc'', ''abc'', ''LEADER'']]
     [(''r1'', \<lparr>L_start = 10, A_start = 20, P_start = 30, P_end = 50\<rparr>)]"
    by blast
  from s converted_field_aborts
  have 6: "make_segmentation_dict
     [[''polya-segmentation'', ''r1'', ''161684804'', ''47.0'', ''1851.0'', ''8354.0'',
       ''11424.0'', ''73.76'', ''75.18'', ''35.23'']] =
   make_segmentation_dict
     [[''x'', ''r1'', ''abc'', ''47.0'', ''1851.0'', ''8354.0'', ''11424.0'', ''abc'', ''abc'',
       ''abc'']]"
    by blast
  from 1 2 3 4 5 6 show ?thesis by blast
qed

text \<open>
  Claim C8 as stated fails for the fields that are never converted: a line of the old
  samples file whose \<open>scaled_sample\<close> is not a number is loaded like any other, and so
  is the line after it.
\<close>

theorem unconverted_field_counterexample:
  "non_numeric (field samples_headers
     [''polya-samples'', ''r1'', ''chr1'', ''5'', ''100.0'', ''abc'', ''-1.0'', ''-2.0'', ''-3.0'',
      ''-4.0'', ''-5.0'', ''-6.0'', ''START''] ''scaled_sample'') \<and>
   old_tsv_to_numpy
     [[''polya-samples'', ''r1'', ''chr1'', ''5'', ''100.0'', ''abc'', ''-1.0'', ''-2.0'', ''-3.0'',
       ''-4.0'', ''-5.0'', ''-6.0'', ''START''],
      [''polya-samples'', ''r1'', ''chr1'', ''15'', ''100.0'', ''1.5'', ''-1.0'', ''-2.0'', ''-3.0'',
       ''-4.0'', ''-5.0'', ''-6.0'', ''LEADER'']]
   = Inr \<lparr>S_loglkhd = [Finite (- 1)], L_loglkhd = [Finite (- 2)], A_loglkhd = [],
          P_loglkhd = [], T_loglkhd = []\<rparr>"
  by (simp add: non_numeric_def field_def old_tsv_to_numpy_def old_row_def load_defs parse_defs)

section \<open>Properties of the fits and of the report\<close>

lemma fit_gaussian_exact:
  "values \<noteq> [] \<Longrightarrow>
   fit_gaussian (exact_lib gmm) values = Inr (ml_mean values, sqrt (ml_variance values))"
  by (simp add: fit_gaussian_def exact_lib_def exact_norm_fit_def ml_mean_def ml_variance_def
      Let_def)



lemma benchmark_option_default: "benchmark_option None = True"
  by (simp add: benchmark_option_def)

lemma main_without_benchmark:
  "main L old seg new False = Inr out \<Longrightarrow>
   length out = 10 \<and> (''===== Emission Log-Likelihood Benchmarks ====='', []) \<notin> set out"
  by (auto simp: main_def bind_eq_Inr Let_def params_gaussian_def params_component_def
      split: prod.splits)

lemma main_with_benchmark:
  "main L old seg new True = Inr out \<Longrightarrow>
   length out = 21 \<and> out ! 10 = (''===== Emission Log-Likelihood Benchmarks ====='', [])"
  by (auto simp: main_def bind_eq_Inr Let_def nth_append split: prod.splits)

text \<open>
  Claim C1. The claim asks for the pair (mean, variance). \<open>fit_gaussian\<close> passes on what
  \<open>norm.fit\<close> returns, the mean and the standard deviation: for the values 0 and 4, whose
  mean is 2 and whose variance is 4, the second component is 2. \<open>main\<close> prints that
  component as \<open>var\<close> and its square root, \<open>sqrt 2\<close>, as \<open>stdv\<close>.
\<close>

theorem fit_gaussian_returns_deviation:
  "fit_gaussian (exact_lib gmm) [0, 4] = Inr (2, 2) \<and>
   ml_mean [0, 4] = 2 \<and> ml_variance [0, 4] = 4 \<and>
   params_gaussian (exact_lib gmm) ''New params for START: mu = {0}, var = {1}, stdv = {2}'' 2 2
     = (''New params for START: mu = {0}, var = {1}, stdv = {2}'', [2, 2, sqrt 2])"
proof -
  have m: "ml_mean [0, 4] = 2" by (simp add: ml_mean_def)
  have v: "ml_variance [0, 4] = 4" by (simp add: ml_variance_def m)
  have "sqrt (ml_variance [0, 4]) = 2" by (simp add: v)
  moreover have "fit_gaussian (exact_lib gmm) [0, 4] =
      Inr (ml_mean [0, 4], sqrt (ml_variance [0, 4]))"
    by (rule fit_gaussian_exact) simp
  ultimately have f: "fit_gaussian (exact_lib gmm) [0, 4] = Inr (2, 2)"
    using m by simp
  have p: "params_gaussian (exact_lib gmm) ''New params for START: mu = {0}, var = {1}, stdv = {2}'' 2 2
     = (''New params for START: mu = {0}, var = {1}, stdv = {2}'', [2, 2, sqrt 2])"
    by (simp add: params_gaussian_def exact_lib_def)
  from f m v p show ?thesis by blast
qed



text \<open>
  Claim C7. The option defaults to true. Given \<open>--benchmark=False\<close> on the command line,
  \<open>args.benchmark\<close> is \<open>bool('False')\<close>, which is true, and the run is the run
  without the option: the benchmark is not skipped.
\<close>

theorem benchmark_False_runs_benchmark:
  "benchmark_option (Some ''False'') = True \<and>
   main L old_samples_tsv old_segmentations_tsv new_samples_tsv (benchmark_option (Some ''False''))
     = main L old_samples_tsv old_segmentations_tsv new_samples_tsv (benchmark_option None)"
  by (simp add: benchmark_option_def py_bool_def)

end
